theory Spec2Isabelle
  imports Main "HOL-Library.Char_ord" "HOL-Library.List_Lexorder" "HOL-Library.AList"
begin

section \<open>The functions of Go's package \<open>strings\<close>\<close>

text \<open>
  A Go string is a sequence of bytes, and so is a HOL \<open>string\<close>. The functions
  \<open>strings.TrimSpace\<close>, \<open>strings.ToLower\<close> and \<open>strings.ToUpper\<close> belong to Go's library, not
  to the repository: they decode UTF-8 and use the Unicode tables for white space and case.
  Every function of the repository that calls them takes them as the parameter \<open>lib\<close>, a
  record of the three functions.
\<close>

record stringsPkg =
  TrimSpace :: "string \<Rightarrow> string"
  ToLower :: "string \<Rightarrow> string"
  ToUpper :: "string \<Rightarrow> string"

text \<open>
  On a string of ASCII bytes the three library functions work byte by byte: \<open>TrimSpace\<close>
  removes leading and trailing bytes among tab, line feed, vertical tab, form feed, carriage
  return and space, \<open>ToLower\<close> maps \<open>A\<close>..\<open>Z\<close> to \<open>a\<close>..\<open>z\<close>, and \<open>ToUpper\<close> maps \<open>a\<close>..\<open>z\<close> to
  \<open>A\<close>..\<open>Z\<close>. The record \<open>asciiStrings\<close> holds these byte-wise functions; the examples, whose
  strings are all ASCII, are evaluated with it.
\<close>

definition isASCII :: "string \<Rightarrow> bool" where
  "isASCII s = list_all (\<lambda>c. (of_char c :: nat) < 128) s"

definition isSpace :: "char \<Rightarrow> bool" where
  "isSpace c = (c = CHR 0x09 \<or> c = CHR 0x0A \<or> c = CHR 0x0B \<or> c = CHR 0x0C \<or> c = CHR 0x0D \<or> c = CHR '' '')"

definition asciiTrimSpace :: "string \<Rightarrow> string" where
  "asciiTrimSpace s = rev (dropWhile isSpace (rev (dropWhile isSpace s)))"

definition isUpper :: "char \<Rightarrow> bool" where
  "isUpper c = (65 \<le> (of_char c :: nat) \<and> (of_char c :: nat) \<le> 90)"

definition toLowerChar :: "char \<Rightarrow> char" where
  "toLowerChar c = (if isUpper c then char_of ((of_char c :: nat) + 32) else c)"

definition asciiToLower :: "string \<Rightarrow> string" where
  "asciiToLower s = map toLowerChar s"

definition toUpperChar :: "char \<Rightarrow> char" where
  "toUpperChar c =
     (if 97 \<le> (of_char c :: nat) \<and> (of_char c :: nat) \<le> 122
      then char_of ((of_char c :: nat) - 32) else c)"

definition asciiToUpper :: "string \<Rightarrow> string" where
  "asciiToUpper s = map toUpperChar s"

definition asciiStrings :: stringsPkg where
  "asciiStrings = \<lparr>TrimSpace = asciiTrimSpace, ToLower = asciiToLower, ToUpper = asciiToUpper\<rparr>"

section \<open>mediator.go: slugify\<close>

text \<open>
  \<open>strings.NewReplacer(" ", "_", "-", "_", ".", "_", "/", "_", ":", "_")\<close> has only
  single-byte patterns and replacements, so \<open>Replace\<close> rewrites byte by byte.
\<close>

definition replaceChar :: "char \<Rightarrow> char" where
  "replaceChar c =
     (if c = CHR '' '' \<or> c = CHR ''-'' \<or> c = CHR ''.'' \<or> c = CHR ''/'' \<or> c = CHR '':''
      then CHR ''_'' else c)"

definition slugify :: "stringsPkg \<Rightarrow> string \<Rightarrow> string" where
  "slugify lib input =
     (let s = ToLower lib (TrimSpace lib input)
      in if s = [] then ''tool'' else map replaceChar s)"

text \<open>
  The properties of the library functions that idempotence of \<open>slugify\<close> rests on. They hold
  of Go's \<open>strings.TrimSpace\<close> and \<open>strings.ToLower\<close>; the package is not part of the
  repository, so they are stated here and assumed where they are used:
  \<^item> on a string of ASCII bytes the two functions are the byte-wise ones;
  \<^item> lower-casing twice is lower-casing once;
  \<^item> a trimmed string that is lower-cased is still trimmed (lower-casing turns no character
    into white space);
  \<^item> a trimmed string is still trimmed after the separators are replaced (the replacement
    is \<open>_\<close>, which is not white space);
  \<^item> lower-casing and replacing the separators can be done in either order (the separators
    and \<open>_\<close> are ASCII characters without case).
\<close>

definition stringsLaws :: "stringsPkg \<Rightarrow> bool" where
  "stringsLaws lib =
     ((\<forall>s. isASCII s \<longrightarrow> TrimSpace lib s = asciiTrimSpace s \<and> ToLower lib s = asciiToLower s) \<and>
      (\<forall>s. ToLower lib (ToLower lib s) = ToLower lib s) \<and>
      (\<forall>s. TrimSpace lib (ToLower lib (TrimSpace lib s)) = ToLower lib (TrimSpace lib s)) \<and>
      (\<forall>s. TrimSpace lib s = s \<longrightarrow> TrimSpace lib (map replaceChar s) = map replaceChar s) \<and>
      (\<forall>s. ToLower lib (map replaceChar s) = map replaceChar (ToLower lib s)))"

section \<open>Formatting helpers of the Go library\<close>

text \<open>
  \<open>fmt.Sprint\<close> and the verb \<open>%d\<close> print an integer in decimal; \<open>net.JoinHostPort\<close> puts a
  host that contains a colon in brackets.
\<close>

fun itoa :: "nat \<Rightarrow> string" where
  "itoa n = (if n < 10 then [char_of (48 + n)] else itoa (n div 10) @ [char_of (48 + n mod 10)])"

declare itoa.simps [simp del]

definition Sprint :: "int \<Rightarrow> string" where
  "Sprint i = (if i < 0 then CHR ''-'' # itoa (nat (- i)) else itoa (nat i))"

definition JoinHostPort :: "string \<Rightarrow> string \<Rightarrow> string" where
  "JoinHostPort host port =
     (if CHR '':'' \<in> set host then ''['' @ host @ '']:'' @ port else host @ '':'' @ port)"

section \<open>discovery.go: peer records, TXT parsing, classification\<close>

text \<open>
  \<open>ServerInfo.Text\<close> is a Go map that may be nil: \<open>None\<close> is the nil map, and reading a key
  that is absent (or reading the nil map) gives the empty string. \<open>LastSeen\<close> is a time stamp,
  kept as a number.
\<close>

record ServerInfo =
  Instance :: string
  Host :: string
  Port :: int
  Address :: string
  Kind :: string
  LastSeen :: nat
  Text :: "(string \<rightharpoonup> string) option"

text \<open>
  The browse entry delivered by the mDNS library; its IP addresses are taken in their printed
  form (\<open>IP.String()\<close>).
\<close>

record ServiceEntry =
  entryInstance :: string
  entryHostName :: string
  entryPort :: int
  entryAddrIPv4 :: "string list"
  entryAddrIPv6 :: "string list"
  entryText :: "string list"

definition ServerKindTool :: string where
  "ServerKindTool = ''tool''"

definition ServerKindAgentWrapper :: string where
  "ServerKindAgentWrapper = ''agent-wrapper''"

definition ServerKindOrchestrator :: string where
  "ServerKindOrchestrator = ''orchestrator''"

definition ServerKindUnknown :: string where
  "ServerKindUnknown = ''unknown''"

text \<open>\<open>parseTxtRecord\<close> splits at the first \<open>=\<close>; a record without \<open>=\<close> gives nil.\<close>

definition parseTxtRecord :: "string \<Rightarrow> (string \<times> string) option" where
  "parseTxtRecord txt =
     (if CHR ''='' \<in> set txt
      then Some (takeWhile (\<lambda>c. c \<noteq> CHR ''='') txt, tl (dropWhile (\<lambda>c. c \<noteq> CHR ''='') txt))
      else None)"

text \<open>The loop of \<open>observe\<close> that fills \<open>textMap\<close>: a later record overwrites an earlier key.\<close>

definition storeTxt :: "(string \<rightharpoonup> string) \<Rightarrow> string \<Rightarrow> (string \<rightharpoonup> string)" where
  "storeTxt m txt = (case parseTxtRecord txt of Some (k, v) \<Rightarrow> m(k \<mapsto> v) | None \<Rightarrow> m)"

definition buildTextMap :: "string list \<Rightarrow> (string \<rightharpoonup> string)" where
  "buildTextMap txts = foldl storeTxt Map.empty txts"

definition textGet :: "(string \<rightharpoonup> string) option \<Rightarrow> string \<Rightarrow> string" where
  "textGet text k =
     (case text of None \<Rightarrow> [] | Some m \<Rightarrow> (case m k of None \<Rightarrow> [] | Some v \<Rightarrow> v))"

definition classifyKind :: "stringsPkg \<Rightarrow> (string \<rightharpoonup> string) option \<Rightarrow> string" where
  "classifyKind lib text =
     (case text of
        None \<Rightarrow> ServerKindTool
      | Some m \<Rightarrow>
          (let role = ToLower lib (TrimSpace lib (textGet text ''role''))
           in if role = [] then ServerKindTool
              else if role = ServerKindTool then ServerKindTool
              else if role = ServerKindAgentWrapper then ServerKindAgentWrapper
              else if role = ServerKindOrchestrator then ServerKindOrchestrator
              else role))"

text \<open>The record that \<open>observe\<close> publishes for a browse entry seen at time \<open>now\<close>.\<close>

definition observeInfo :: "stringsPkg \<Rightarrow> nat \<Rightarrow> ServiceEntry \<Rightarrow> ServerInfo" where
  "observeInfo lib now entry =
     (let host = entryHostName entry;
          address =
            (if entryAddrIPv4 entry \<noteq> [] then JoinHostPort (hd (entryAddrIPv4 entry)) (Sprint (entryPort entry))
             else if entryAddrIPv6 entry \<noteq> [] then JoinHostPort (hd (entryAddrIPv6 entry)) (Sprint (entryPort entry))
             else JoinHostPort (entryHostName entry) (Sprint (entryPort entry)));
          textMap = buildTextMap (entryText entry)
      in \<lparr>Instance = entryInstance entry, Host = host, Port = entryPort entry, Address = address,
          Kind = classifyKind lib (Some textMap), LastSeen = now, Text = Some textMap\<rparr>)"

section \<open>announcer.go: TXT encoding\<close>

text \<open>
  \<open>NewAnnouncer\<close> turns each entry of \<open>opts.Text\<close> into the record \<open>key=value\<close> with key and
  value trimmed, and skips an entry whose trimmed key is empty (\<open>None\<close>). The entries of the Go
  map are a list of pairs, in the order the loop visits them.
\<close>

definition encodeTxt :: "stringsPkg \<Rightarrow> string \<Rightarrow> string \<Rightarrow> string option" where
  "encodeTxt lib k v =
     (let key = TrimSpace lib k
      in if key = [] then None
         else (let val = TrimSpace lib v in Some (key @ ''='' @ val)))"

definition announceText :: "stringsPkg \<Rightarrow> (string \<times> string) list \<Rightarrow> string list" where
  "announceText lib entries = List.map_filter (\<lambda>(k, v). encodeTxt lib k v) entries"

text \<open>One pair sent through the announcer's encoding and the registry's parser.\<close>

definition txtRoundTrip :: "stringsPkg \<Rightarrow> string \<Rightarrow> string \<Rightarrow> (string \<times> string) option" where
  "txtRoundTrip lib k v = (case encodeTxt lib k v of None \<Rightarrow> None | Some txt \<Rightarrow> parseTxtRecord txt)"

text \<open>A browse entry of a peer that advertises the role \<open>Gateway\<close>, used in the examples.\<close>

definition gatewayEntry :: ServiceEntry where
  "gatewayEntry =
     \<lparr>entryInstance = ''gw'', entryHostName = ''gw.local.'', entryPort = 9000,
      entryAddrIPv4 = [''10.0.0.5''], entryAddrIPv6 = [],
      entryText = [''role= Gateway '', ''model=m'']\<rparr>"

section \<open>Errors, JSON values and HTTP status codes\<close>

text \<open>
  Every error the modelled functions return is a value of \<open>error\<close>, one constructor for each
  \<open>errors.New\<close> or \<open>fmt.Errorf\<close> of the source. \<open>ErrModelUnsupported m\<close> is the sentinel
  \<open>ErrModelUnsupported\<close> wrapped with the model name, and \<open>ErrToolFailed\<close> wraps the error of
  the MCP client. \<open>ErrExternal\<close> is an error that comes from outside the repository (the HTTP
  transport, a JSON decoder, the upstream provider, \<open>url.Parse\<close>), with its text.
  \<open>ErrIndexOutOfRange\<close> stands for the run-time panic of reading \<open>Choices[0]\<close> of an empty
  list.
\<close>

datatype error =
    ErrModelRequired
  | ErrNoMessages
  | ErrMissingRole nat
  | ErrStreamingUnsupported
  | ErrModelUnsupported string
  | ErrOpenAINotConfigured
  | ErrEmptyCompletion
  | ErrIndexOutOfRange
  | ErrUnknownTool string
  | ErrInvalidToolArguments string error
  | ErrToolFailed string error
  | ErrToolClientNotConfigured
  | ErrNilServer
  | ErrInvalidServerURL string error
  | ErrMissingAddress string
  | ErrToolNotFound string
  | ErrMissingArgument string
  | ErrArgumentNotString string
  | ErrExternal string

text \<open>A decoded JSON value; a Go \<open>map[string]any\<close> is the list of its entries.\<close>

datatype json =
    JNull
  | JBool bool
  | JNumber int
  | JString string
  | JArray "json list"
  | JObject "(string \<times> json) list"

definition StatusOK :: nat where
  "StatusOK = 200"

definition StatusBadRequest :: nat where
  "StatusBadRequest = 400"

definition StatusNotFound :: nat where
  "StatusNotFound = 404"

definition StatusInternalServerError :: nat where
  "StatusInternalServerError = 500"

section \<open>client.go: the request URL of the MCP client\<close>

text \<open>
  \<open>buildURL\<close> calls \<open>url.Parse\<close> and \<open>URL.String\<close> of Go's package \<open>net/url\<close>. The record
  \<open>URL\<close> holds the fields of \<open>url.URL\<close> (\<open>urlUser\<close> is the printed user information,
  \<open>None\<close> for a nil pointer). \<open>URLString\<close> and \<open>EscapedPath\<close>, \<open>EscapedFragment\<close> below follow the
  library's \<open>String\<close>, \<open>EscapedPath\<close> and \<open>EscapedFragment\<close> statement by statement. The parser and
  the percent-encoding helpers of the package (\<open>escape\<close>, \<open>validEncoded\<close>, \<open>unescape\<close>, each
  with the part of the URL it works on) are the parameter \<open>net\<close>.
\<close>

record URL =
  urlScheme :: string
  urlOpaque :: string
  urlUser :: "string option"
  urlHost :: string
  urlPath :: string
  urlRawPath :: string
  urlOmitHost :: bool
  urlForceQuery :: bool
  urlRawQuery :: string
  urlFragment :: string
  urlRawFragment :: string

datatype encoding = encodePath | encodeHost | encodeFragment

record urlPkg =
  Parse :: "string \<Rightarrow> error + URL"
  escape :: "string \<Rightarrow> encoding \<Rightarrow> string"
  validEncoded :: "string \<Rightarrow> encoding \<Rightarrow> bool"
  unescape :: "string \<Rightarrow> encoding \<Rightarrow> string option"

definition EscapedPath :: "urlPkg \<Rightarrow> URL \<Rightarrow> string" where
  "EscapedPath net u =
     (if urlRawPath u \<noteq> [] \<and> validEncoded net (urlRawPath u) encodePath \<and>
         unescape net (urlRawPath u) encodePath = Some (urlPath u)
      then urlRawPath u
      else if urlPath u = ''*'' then ''*''
      else escape net (urlPath u) encodePath)"

definition EscapedFragment :: "urlPkg \<Rightarrow> URL \<Rightarrow> string" where
  "EscapedFragment net u =
     (if urlRawFragment u \<noteq> [] \<and> validEncoded net (urlRawFragment u) encodeFragment \<and>
         unescape net (urlRawFragment u) encodeFragment = Some (urlFragment u)
      then urlRawFragment u
      else escape net (urlFragment u) encodeFragment)"

text \<open>
  \<open>URL.String\<close>: the scheme and a colon; then the opaque part, or else the authority (after
  two slashes) and the escaped path; then the query and the fragment. A URL with an opaque
  part is printed without its path.
\<close>

definition URLString :: "urlPkg \<Rightarrow> URL \<Rightarrow> string" where
  "URLString net u =
     (let buf0 = (if urlScheme u \<noteq> [] then urlScheme u @ '':'' else []);
          buf1 =
            (if urlOpaque u \<noteq> [] then buf0 @ urlOpaque u
             else
               (let buf2 =
                      (if urlScheme u \<noteq> [] \<or> urlHost u \<noteq> [] \<or> urlUser u \<noteq> None then
                         (if urlOmitHost u \<and> urlHost u = [] \<and> urlUser u = None then buf0
                          else buf0
                            @ (if urlHost u \<noteq> [] \<or> urlPath u \<noteq> [] \<or> urlUser u \<noteq> None
                               then ''//'' else [])
                            @ (case urlUser u of None \<Rightarrow> [] | Some ui \<Rightarrow> ui @ ''@'')
                            @ (if urlHost u \<noteq> [] then escape net (urlHost u) encodeHost else []))
                       else buf0);
                    path = EscapedPath net u;
                    buf3 = (if path \<noteq> [] \<and> hd path \<noteq> CHR ''/'' \<and> urlHost u \<noteq> []
                            then buf2 @ ''/'' else buf2);
                    buf4 = (if buf3 = [] \<and> CHR '':'' \<in> set (takeWhile (\<lambda>c. c \<noteq> CHR ''/'') path)
                            then buf3 @ ''./'' else buf3)
                in buf4 @ path));
          buf5 = (if urlForceQuery u \<or> urlRawQuery u \<noteq> [] then buf1 @ ''?'' @ urlRawQuery u
                  else buf1);
          buf6 = (if urlFragment u \<noteq> [] then buf5 @ ''#'' @ EscapedFragment net u else buf5)
      in buf6)"

definition HasPrefix :: "string \<Rightarrow> string \<Rightarrow> bool" where
  "HasPrefix s p = (take (length p) s = p)"

text \<open>Lines 139 to 141: the path gets a leading slash.\<close>

definition endpointPath :: "string \<Rightarrow> string" where
  "endpointPath path = (if \<not> HasPrefix path ''/'' then ''/'' @ path else path)"

text \<open>Lines 152 to 159: the address, built from host and port when the record has none.\<close>

definition peerAddress :: "ServerInfo \<Rightarrow> string" where
  "peerAddress server =
     (let host = (if Host server = [] then Instance server else Host server)
      in if Address server = [] \<and> host \<noteq> [] then JoinHostPort host (Sprint (Port server))
         else Address server)"

text \<open>Lines 163 to 166: the scheme.\<close>

definition peerScheme :: "stringsPkg \<Rightarrow> ServerInfo \<Rightarrow> string" where
  "peerScheme lib server =
     (let scheme = TrimSpace lib (textGet (Text server) ''scheme'')
      in if scheme = [] then ''http'' else scheme)"

definition buildURL ::
  "stringsPkg \<Rightarrow> urlPkg \<Rightarrow> ServerInfo option \<Rightarrow> string \<Rightarrow> error + string" where
  "buildURL lib net server path =
     (case server of
        None \<Rightarrow> Inl ErrNilServer
      | Some srv \<Rightarrow>
          (let target = textGet (Text srv) ''url''
           in if TrimSpace lib target \<noteq> [] then
                (case Parse net target of
                   Inl err \<Rightarrow> Inl (ErrInvalidServerURL target err)
                 | Inr base \<Rightarrow> Inr (URLString net (base\<lparr>urlPath := endpointPath path\<rparr>)))
              else if TrimSpace lib (peerAddress srv) = [] then Inl (ErrMissingAddress (Instance srv))
              else Inr (peerScheme lib srv @ ''://'' @ peerAddress srv @ endpointPath path)))"

text \<open>
  The library parameter of the examples: a parser that knows two strings and gives for each
  the URL that \<open>url.Parse\<close> gives (a string of the form \<open>host:port\<close> without slashes parses as
  a scheme and an opaque part), and percent-encoding helpers that leave every string as it
  is, as the library does for strings of letters, digits and slashes.
\<close>

definition exampleParse :: "string \<Rightarrow> error + URL" where
  "exampleParse s =
     (if s = ''https://peer.example:8443/base?x=1''
      then Inr \<lparr>urlScheme = ''https'', urlOpaque = [], urlUser = None,
                urlHost = ''peer.example:8443'', urlPath = ''/base'', urlRawPath = [],
                urlOmitHost = False, urlForceQuery = False, urlRawQuery = ''x=1'',
                urlFragment = [], urlRawFragment = []\<rparr>
      else if s = ''peer.example:8443''
      then Inr \<lparr>urlScheme = ''peer.example'', urlOpaque = ''8443'', urlUser = None,
                urlHost = [], urlPath = [], urlRawPath = [],
                urlOmitHost = False, urlForceQuery = False, urlRawQuery = [],
                urlFragment = [], urlRawFragment = []\<rparr>
      else Inl (ErrExternal ''parse''))"

definition exampleNet :: urlPkg where
  "exampleNet =
     \<lparr>Parse = exampleParse,
      escape = (\<lambda>s mode. s),
      validEncoded = (\<lambda>s mode. True),
      unescape = (\<lambda>s mode. Some s)\<rparr>"

text \<open>
  Three peers for the examples: one with a blank scheme attribute, one with a URL attribute,
  and one whose URL attribute is a bare \<open>host:port\<close>.
\<close>

definition blankSchemePeer :: ServerInfo where
  "blankSchemePeer =
     \<lparr>Instance = ''alpha'', Host = ''alpha.local.'', Port = 9000, Address = ''10.0.0.5:9000'',
      Kind = ''tool'', LastSeen = 0, Text = Some [''scheme'' \<mapsto> '' '']\<rparr>"

definition urlPeer :: ServerInfo where
  "urlPeer =
     \<lparr>Instance = ''beta'', Host = ''beta.local.'', Port = 9000, Address = ''10.0.0.6:9000'',
      Kind = ''tool'', LastSeen = 0,
      Text = Some [''url'' \<mapsto> ''https://peer.example:8443/base?x=1'', ''scheme'' \<mapsto> ''ftp'']\<rparr>"

definition hostPortPeer :: ServerInfo where
  "hostPortPeer =
     \<lparr>Instance = ''gamma'', Host = ''gamma.local.'', Port = 9000, Address = ''10.0.0.4:9000'',
      Kind = ''tool'', LastSeen = 0, Text = Some [''url'' \<mapsto> ''peer.example:8443'']\<rparr>"

section \<open>The HTTP tool server (\<open>/tools/call\<close>)\<close>

text \<open>
  The schema constant of a tool definition (\<open>Parameters\<close>) plays no part in the call handler
  and is left out. Arguments are a Go \<open>map[string]any\<close>: \<open>None\<close> is the nil map.
\<close>

record toolDefinition =
  tdName :: string
  tdDescription :: string
  tdMethod :: string

record toolCallRequest =
  tcName :: string
  tcArguments :: "(string \<times> json) list option"

record httpToolResult =
  resStatus :: int
  resStatusText :: string
  resHeaders :: "(string \<times> string list) list"
  resBody :: string

record toolServer =
  tools :: "toolDefinition list"

definition makeToolDefinition :: "stringsPkg \<Rightarrow> string \<Rightarrow> toolDefinition" where
  "makeToolDefinition lib method =
     \<lparr>tdName = ''http_'' @ ToLower lib method,
      tdDescription = ''Performs an HTTP '' @ ToUpper lib method @ '' request to a target URL.'',
      tdMethod = method\<rparr>"

definition newToolServer :: "stringsPkg \<Rightarrow> toolServer" where
  "newToolServer lib =
     \<lparr>tools = [makeToolDefinition lib ''GET'', makeToolDefinition lib ''POST'', makeToolDefinition lib ''PUT'',
               makeToolDefinition lib ''PATCH'', makeToolDefinition lib ''DELETE'']\<rparr>"

fun lookupToolIn :: "toolDefinition list \<Rightarrow> string \<Rightarrow> error + toolDefinition" where
  "lookupToolIn [] name = Inl (ErrToolNotFound name)"
| "lookupToolIn (tool # rest) name = (if tdName tool = name then Inr tool else lookupToolIn rest name)"

definition lookupTool :: "toolServer \<Rightarrow> string \<Rightarrow> error + toolDefinition" where
  "lookupTool s name = lookupToolIn (tools s) name"

definition extractString :: "stringsPkg \<Rightarrow> (string \<times> json) list option \<Rightarrow> string \<Rightarrow> error + string" where
  "extractString lib args key =
     (case args of
        None \<Rightarrow> Inl (ErrMissingArgument key)
      | Some m \<Rightarrow>
          (case map_of m key of
             None \<Rightarrow> Inl (ErrMissingArgument key)
           | Some (JString str) \<Rightarrow>
               if TrimSpace lib str = [] then Inl (ErrArgumentNotString key) else Inr str
           | Some _ \<Rightarrow> Inl (ErrArgumentNotString key)))"

record toolResponse =
  trStatus :: nat
  trBody :: "error + string \<times> httpToolResult"

text \<open>
  \<open>handleCallTool\<close>. The decoded request body is the argument \<open>decoded\<close> (\<open>Inl\<close> when the JSON
  decoder fails); \<open>executeHTTPRequest\<close>, which performs the outgoing request, is the parameter
  \<open>exec\<close>.
\<close>

definition handleCallTool ::
  "stringsPkg \<Rightarrow> toolServer \<Rightarrow> (string \<Rightarrow> string \<Rightarrow> (string \<times> json) list option \<Rightarrow> error + httpToolResult) \<Rightarrow>
   error + toolCallRequest \<Rightarrow> toolResponse" where
  "handleCallTool lib s exec decoded =
     (case decoded of
        Inl err \<Rightarrow> \<lparr>trStatus = StatusBadRequest, trBody = Inl err\<rparr>
      | Inr req \<Rightarrow>
          (case lookupTool s (tcName req) of
             Inl err \<Rightarrow> \<lparr>trStatus = StatusNotFound, trBody = Inl err\<rparr>
           | Inr def \<Rightarrow>
               (case extractString lib (tcArguments req) ''url'' of
                  Inl err \<Rightarrow> \<lparr>trStatus = StatusBadRequest, trBody = Inl err\<rparr>
                | Inr target \<Rightarrow>
                    (case exec (tdMethod def) target (tcArguments req) of
                       Inl err \<Rightarrow> \<lparr>trStatus = StatusBadRequest, trBody = Inl err\<rparr>
                     | Inr res \<Rightarrow> \<lparr>trStatus = StatusOK, trBody = Inr (tcName req, res)\<rparr>))))"

text \<open>An outgoing request that always answers 200, and a call of a tool that is not registered.\<close>

definition exampleExec ::
  "string \<Rightarrow> string \<Rightarrow> (string \<times> json) list option \<Rightarrow> error + httpToolResult" where
  "exampleExec method target args =
     Inr \<lparr>resStatus = 200, resStatusText = ''200 OK'', resHeaders = [], resBody = ''ok''\<rparr>"

definition headCall :: toolCallRequest where
  "headCall = \<lparr>tcName = ''http_head'', tcArguments = Some [(''url'', JString ''http://example.org/'')]\<rparr>"

definition getCallNoURL :: toolCallRequest where
  "getCallNoURL = \<lparr>tcName = ''http_get'', tcArguments = Some [(''body'', JString ''x'')]\<rparr>"

section \<open>The request and response types of the chat API\<close>

text \<open>
  The fields \<open>Temperature\<close>, \<open>TopP\<close>, \<open>MaxTokens\<close> and \<open>Tools\<close> of the request are read by
  no function of the repository and are left out.
\<close>

record ChatMessage =
  msgRole :: string
  msgContent :: string
  msgName :: string

record ChatCompletionRequest =
  reqModel :: string
  reqMessages :: "ChatMessage list"
  reqStream :: bool
  reqUser :: string

record AssistantMessage =
  amRole :: string
  amContent :: string

record Choice =
  chIndex :: int
  chFinishReason :: string
  chMessage :: AssistantMessage

record Usage =
  PromptTokens :: int
  CompletionTokens :: int
  TotalTokens :: int

record ChatCompletionResponse =
  respID :: string
  respObject :: string
  respCreated :: int
  respModel :: string
  respChoices :: "Choice list"
  respUsage :: Usage

text \<open>The loop of \<open>Validate\<close> over the messages: the index of the first message without a role.\<close>

fun missingRole :: "ChatMessage list \<Rightarrow> nat \<Rightarrow> nat option" where
  "missingRole [] i = None"
| "missingRole (msg # rest) i = (if msgRole msg = [] then Some i else missingRole rest (Suc i))"

definition Validate :: "ChatCompletionRequest \<Rightarrow> error option" where
  "Validate r =
     (if reqModel r = [] then Some ErrModelRequired
      else if reqMessages r = [] then Some ErrNoMessages
      else (case missingRole (reqMessages r) 0 of
              Some i \<Rightarrow> Some (ErrMissingRole i)
            | None \<Rightarrow> None))"

section \<open>The types of the upstream client and of the MCP client\<close>

text \<open>
  The parts of the \<open>openai-go\<close> types that the mediator reads or writes. In the request
  parameters, \<open>paramsTools = None\<close> is a \<open>Tools\<close> field that was never assigned.
\<close>

record ToolCall =
  callID :: string
  callFunctionName :: string
  callArguments :: string

record CompletionMessage =
  cmContent :: string
  cmToolCalls :: "ToolCall list"

record CompletionChoice =
  ccIndex :: int
  ccFinishReason :: string
  ccMessage :: CompletionMessage

record ChatCompletion =
  compID :: string
  compObject :: string
  compCreated :: int
  compModel :: string
  compChoices :: "CompletionChoice list"
  compUsage :: Usage

datatype MessageParam =
    SystemMessage string
  | AssistantMessageOf string
  | UserMessage string
  | AssistantParam CompletionMessage
  | ToolMessage string string

record ToolParam =
  tpName :: string
  tpDescription :: string
  tpParameters :: json

record ChatCompletionNewParams =
  paramsModel :: string
  paramsMessages :: "MessageParam list"
  paramsTools :: "ToolParam list option"

record ToolDefinition =
  toolName :: string
  toolDescription :: string
  toolParameters :: json

record CallResult =
  crTool :: string
  crResult :: json

section \<open>mediator.go: the tool roster\<close>

record toolMeta =
  metaServer :: ServerInfo
  metaToolName :: string
  metaDescription :: string
  metaOriginalName :: string

record ToolServerRef =
  refInstance :: string
  refAddress :: string
  refKind :: string
  refMetadata :: "(string \<rightharpoonup> string) option"

record ToolDescriptor =
  descName :: string
  descDescription :: string
  descParameters :: json
  descServer :: ToolServerRef
  descOriginal :: string

text \<open>
  The mediator. \<open>allowedKinds\<close> is the key set of the Go map, as a list; \<open>openaiClientSet\<close> and
  \<open>toolClientSet\<close> say whether the two client pointers are non-nil.
\<close>

record Mediator =
  openaiClientSet :: bool
  providerModel :: string
  modelName :: string
  allowedKinds :: "string list"
  toolClientSet :: bool

record Options =
  optModelName :: string
  optProviderModel :: string
  optAllowedKinds :: "string list"
  optToolClientSet :: bool
  optOpenAIClientSet :: bool

definition New :: "stringsPkg \<Rightarrow> Options \<Rightarrow> Mediator" where
  "New lib opts =
     \<lparr>openaiClientSet = optOpenAIClientSet opts,
      providerModel = optProviderModel opts,
      modelName = (if optModelName opts = [] then ''go-agent-1'' else optModelName opts),
      allowedKinds = remdups (filter (\<lambda>k. k \<noteq> []) (map (\<lambda>k. ToLower lib (TrimSpace lib k)) (optAllowedKinds opts))),
      toolClientSet = True\<rparr>"

text \<open>
  What a request meets outside the mediator: the registry snapshot at the time of the call
  (the peers in the order the \<open>range\<close> loop visits them), the MCP client's \<open>ListTools\<close> and
  \<open>CallTool\<close>, the upstream completion endpoint, and the JSON codec. The upstream endpoint
  gets the number of the call within the request, and \<open>CallTool\<close> the length of the
  conversation at the call, so that neither has to answer the same way twice.
\<close>

record Env =
  snapshot :: "ServerInfo list"
  listTools :: "ServerInfo \<Rightarrow> error + ToolDefinition list"
  callTool :: "nat \<Rightarrow> ServerInfo \<Rightarrow> string \<Rightarrow> json \<Rightarrow> error + CallResult"
  upstream :: "nat \<Rightarrow> ChatCompletionNewParams \<Rightarrow> error + ChatCompletion option"
  unmarshal :: "string \<Rightarrow> error + json"
  marshal :: "json \<Rightarrow> string"
  errorText :: "error \<Rightarrow> string"

text \<open>
  The loop of \<open>buildFunctionName\<close>: \<open>existing\<close> is the list of the names already in the
  side index. The loop ends because the index is finite and the decimal numerals are pairwise
  different. The counter \<open>i\<close> is a Go \<open>int\<close>; it is a natural number here, since it only
  counts up from 2 and stays far below the range of \<open>int\<close>.
\<close>

function buildFunctionName_loop :: "string \<Rightarrow> string \<Rightarrow> nat \<Rightarrow> string list \<Rightarrow> string" where
  "buildFunctionName_loop base name i existing =
     (if name \<notin> set existing then name
      else buildFunctionName_loop base (base @ ''__'' @ itoa i) (i + 1) existing)"
  by pat_completeness auto

lemma itoa_nonempty: "itoa n \<noteq> []"
  by (subst itoa.simps) simp

lemma digit_inj: "a < 10 \<Longrightarrow> b < 10 \<Longrightarrow> char_of (48 + a :: nat) = char_of (48 + b) \<Longrightarrow> a = b"
proof -
  assume a: "a < 10" and b: "b < 10" and e: "char_of (48 + a :: nat) = char_of (48 + b)"
  from e have "(of_char (char_of (48 + a :: nat)) :: nat) = of_char (char_of (48 + b))" by simp
  then have "(48 + a) mod 256 = (48 + b) mod 256" by (simp only: of_char_of)
  with a b show ?thesis by simp
qed

lemma itoa_inj: "itoa n = itoa m \<Longrightarrow> n = m"
proof (induction n arbitrary: m rule: itoa.induct)
  case (1 n)
  show ?case
  proof (cases "n < 10")
    case True
    then have n1: "itoa n = [char_of (48 + n)]" by (subst itoa.simps) simp
    show ?thesis
    proof (cases "m < 10")
      case mT: True
      then have "itoa m = [char_of (48 + m)]" by (subst itoa.simps) simp
      with n1 "1.prems" have "char_of (48 + n) = char_of (48 + m)" by simp
      with True mT show ?thesis by (rule digit_inj)
    next
      case mF: False
      then have "itoa m = itoa (m div 10) @ [char_of (48 + m mod 10)]" by (subst itoa.simps) simp
      with n1 "1.prems" have "itoa (m div 10) = []" by simp
      with itoa_nonempty show ?thesis by blast
    qed
  next
    case False
    then have n2: "itoa n = itoa (n div 10) @ [char_of (48 + n mod 10)]" by (subst itoa.simps) simp
    show ?thesis
    proof (cases "m < 10")
      case mT: True
      then have "itoa m = [char_of (48 + m)]" by (subst itoa.simps) simp
      with n2 "1.prems" have "itoa (n div 10) = []" by simp
      with itoa_nonempty show ?thesis by blast
    next
      case mF: False
      then have "itoa m = itoa (m div 10) @ [char_of (48 + m mod 10)]" by (subst itoa.simps) simp
      with n2 "1.prems" have e1: "itoa (n div 10) = itoa (m div 10)"
        and e2: "char_of (48 + n mod 10) = char_of (48 + m mod 10)" by simp_all
      from "1.IH"[OF False e1] have d: "n div 10 = m div 10" .
      have "n mod 10 = m mod 10" using e2 by (intro digit_inj) simp_all
      with d show ?thesis by (metis div_mult_mod_eq)
    qed
  qed
qed

text \<open>The suffixes from \<open>i\<close> on that are in use: the measure of the loop.\<close>

definition pending :: "string \<Rightarrow> nat \<Rightarrow> string list \<Rightarrow> nat set" where
  "pending base i existing = {j. i \<le> j \<and> base @ ''__'' @ itoa j \<in> set existing}"

lemma finite_pending: "finite (pending base i existing)"
proof -
  have "inj (\<lambda>j. base @ ''__'' @ itoa j)" by (rule injI) (simp add: itoa_inj)
  then have "finite ((\<lambda>j. base @ ''__'' @ itoa j) -` set existing)"
    by (intro finite_vimageI) simp_all
  moreover have "pending base i existing \<subseteq> (\<lambda>j. base @ ''__'' @ itoa j) -` set existing"
    by (auto simp: pending_def)
  ultimately show ?thesis by (rule rev_finite_subset)
qed

lemma pending_step:
  "pending base i existing =
     (if base @ ''__'' @ itoa i \<in> set existing then insert i (pending base (Suc i) existing)
      else pending base (Suc i) existing)"
  by (auto simp: pending_def Suc_le_eq le_less)

lemma card_pending_step:
  "card (pending base i existing) =
     card (pending base (Suc i) existing) + (if base @ ''__'' @ itoa i \<in> set existing then 1 else 0)"
proof -
  have "i \<notin> pending base (Suc i) existing" by (simp add: pending_def)
  then show ?thesis
    by (subst pending_step) (simp add: finite_pending)
qed

termination buildFunctionName_loop
proof (relation "measure (\<lambda>(base, name, i, existing).
    card (pending base i existing) + (if name \<in> set existing then 1 else 0))")
  show "wf (measure (\<lambda>(base, name, i, existing).
    card (pending base i existing) + (if name \<in> set existing then 1 else 0)))" by simp
next
  fix base name :: string and i :: nat and existing :: "string list"
  assume "\<not> name \<notin> set existing"
  then show "((base, base @ ''__'' @ itoa i, i + 1, existing), base, name, i, existing)
    \<in> measure (\<lambda>(base, name, i, existing).
    card (pending base i existing) + (if name \<in> set existing then 1 else 0))"
    by (simp add: card_pending_step[of base i existing])
qed

declare buildFunctionName_loop.simps [simp del]

text \<open>The side index \<open>meta\<close> is an association list; its keys are the names in use.\<close>

definition buildFunctionName :: "stringsPkg \<Rightarrow> string \<Rightarrow> string \<Rightarrow> (string \<times> toolMeta) list \<Rightarrow> string" where
  "buildFunctionName lib instance tool existing =
     (let base = slugify lib instance @ ''__'' @ slugify lib tool
      in buildFunctionName_loop base base 2 (map fst existing))"

fun Join :: "string list \<Rightarrow> string \<Rightarrow> string" where
  "Join [] sep = []"
| "Join [x] sep = x"
| "Join (x # y # rest) sep = x @ sep @ Join (y # rest) sep"

definition buildToolDescription :: "stringsPkg \<Rightarrow> string \<Rightarrow> ServerInfo option \<Rightarrow> string" where
  "buildToolDescription lib toolDesc srv =
     (let parts1 = (if TrimSpace lib toolDesc \<noteq> [] then [TrimSpace lib toolDesc] else []);
          parts2 =
            (case srv of
               None \<Rightarrow> parts1
             | Some s \<Rightarrow>
                 (let serverInfo = ''Provided by '' @ Instance s @ '' ('' @ Kind s @ '')'';
                      serverInfo' =
                        (case Text s of
                           None \<Rightarrow> serverInfo
                         | Some m \<Rightarrow>
                             (case m ''description'' of
                                None \<Rightarrow> serverInfo
                              | Some desc \<Rightarrow>
                                  if TrimSpace lib desc \<noteq> [] then serverInfo @ '' - '' @ desc
                                  else serverInfo))
                  in parts1 @ [serverInfo']))
      in if parts2 = [] then ''No description provided.'' else Join parts2 '' | '')"

definition isToolHost :: "stringsPkg \<Rightarrow> ServerInfo option \<Rightarrow> bool" where
  "isToolHost lib info =
     (case info of
        None \<Rightarrow> False
      | Some s \<Rightarrow>
          (let kind = ToLower lib (TrimSpace lib (Kind s))
           in kind = ToLower lib ServerKindTool \<or> kind = ToLower lib ServerKindAgentWrapper))"

text \<open>The variables of \<open>collectTools\<close> that its loops update.\<close>

record collected =
  colToolParams :: "ToolParam list"
  colMeta :: "(string \<times> toolMeta) list"
  colDescriptors :: "ToolDescriptor list"
  colLastErr :: "error option"

text \<open>The body of the inner loop: one tool of one peer.\<close>

definition addTool :: "stringsPkg \<Rightarrow> ServerInfo \<Rightarrow> collected \<Rightarrow> ToolDefinition \<Rightarrow> collected" where
  "addTool lib srv st tool =
     (let functionName = buildFunctionName lib (Instance srv) (toolName tool) (colMeta st);
          description = buildToolDescription lib (toolDescription tool) (Some srv)
      in st\<lparr>colToolParams := colToolParams st @
               [\<lparr>tpName = functionName, tpDescription = description,
                 tpParameters = toolParameters tool\<rparr>],
             colMeta := AList.update functionName
               \<lparr>metaServer = srv, metaToolName = toolName tool, metaDescription = description,
                metaOriginalName = toolName tool\<rparr> (colMeta st),
             colDescriptors := colDescriptors st @
               [\<lparr>descName = functionName, descDescription = description,
                 descParameters = toolParameters tool,
                 descServer = \<lparr>refInstance = Instance srv, refAddress = Address srv,
                                refKind = Kind srv, refMetadata = Text srv\<rparr>,
                 descOriginal = toolName tool\<rparr>]\<rparr>)"

text \<open>The body of the outer loop: one peer of the snapshot.\<close>

definition visitServer :: "stringsPkg \<Rightarrow> Mediator \<Rightarrow> Env \<Rightarrow> collected \<Rightarrow> ServerInfo \<Rightarrow> collected" where
  "visitServer lib m env st srv =
     (if allowedKinds m \<noteq> [] \<and> ToLower lib (TrimSpace lib (Kind srv)) \<notin> set (allowedKinds m) then st
      else if \<not> isToolHost lib (Some srv) then st
      else (case listTools env srv of
              Inl err \<Rightarrow> st\<lparr>colLastErr := Some err\<rparr>
            | Inr peerTools \<Rightarrow> foldl (addTool lib srv) st peerTools))"

text \<open>
  \<open>collectTools\<close> returns the roster, the side index, the descriptors and the last error.
  \<open>sort.Slice\<close> orders by name; the names of a roster are pairwise different, so the sorted
  list is the one \<open>sort_key\<close> gives.
\<close>

definition collectTools ::
  "stringsPkg \<Rightarrow> Mediator \<Rightarrow> Env \<Rightarrow> ToolParam list \<times> (string \<times> toolMeta) list \<times> ToolDescriptor list \<times> error option" where
  "collectTools lib m env =
     (if snapshot env = [] then ([], [], [], None)
      else if \<not> toolClientSet m then ([], [], [], Some ErrToolClientNotConfigured)
      else
        (let st = foldl (visitServer lib m env)
                    \<lparr>colToolParams = [], colMeta = [], colDescriptors = [], colLastErr = None\<rparr>
                    (snapshot env);
             toolParams = sort_key tpName (colToolParams st);
             descriptors = sort_key descName (colDescriptors st)
         in if toolParams = [] \<and> colLastErr st \<noteq> None
            then ([], colMeta st, descriptors, colLastErr st)
            else (toolParams, colMeta st, descriptors, colLastErr st)))"

section \<open>mediator.go: the chat turn\<close>

definition supportsModel :: "Mediator \<Rightarrow> string \<Rightarrow> bool" where
  "supportsModel m model = (model = modelName m)"

definition providerModelOrDefault :: "stringsPkg \<Rightarrow> Mediator \<Rightarrow> string" where
  "providerModelOrDefault lib m =
     (if TrimSpace lib (providerModel m) \<noteq> [] then providerModel m else modelName m)"

definition convertMessage :: "stringsPkg \<Rightarrow> ChatMessage \<Rightarrow> MessageParam" where
  "convertMessage lib msg =
     (let role = ToLower lib (msgRole msg)
      in if role = ''system'' then SystemMessage (msgContent msg)
         else if role = ''assistant'' then AssistantMessageOf (msgContent msg)
         else if role = ''user'' then UserMessage (msgContent msg)
         else UserMessage (msgContent msg))"

definition convertMessages :: "stringsPkg \<Rightarrow> ChatMessage list \<Rightarrow> MessageParam list" where
  "convertMessages lib msgs = map (convertMessage lib) msgs"

text \<open>
  \<open>buildOpenAIResponse\<close> reads \<open>resp.Choices[0]\<close>; on an empty list the Go code panics, which
  is the value \<open>None\<close>.
\<close>

definition buildOpenAIResponse :: "string \<Rightarrow> ChatCompletion \<Rightarrow> ChatCompletionResponse option" where
  "buildOpenAIResponse model resp =
     (case compChoices resp of
        [] \<Rightarrow> None
      | choice # others \<Rightarrow>
          Some \<lparr>respID = compID resp,
                respObject = compObject resp,
                respCreated = compCreated resp,
                respModel = model,
                respChoices =
                  [\<lparr>chIndex = ccIndex choice,
                    chFinishReason = ccFinishReason choice,
                    chMessage = \<lparr>amRole = ''assistant'', amContent = cmContent (ccMessage choice)\<rparr>\<rparr>],
                respUsage =
                  \<lparr>PromptTokens = PromptTokens (compUsage resp),
                   CompletionTokens = CompletionTokens (compUsage resp),
                   TotalTokens = TotalTokens (compUsage resp)\<rparr>\<rparr>)"

text \<open>
  The inner loop of \<open>HandleChat\<close> over the tool calls of one reply: every call is resolved in
  the side index, its arguments are decoded, the peer is called, and the result is appended to
  the conversation; the first failure ends the turn.
\<close>

fun dispatchCalls ::
  "Env \<Rightarrow> (string \<times> toolMeta) list \<Rightarrow> ToolCall list \<Rightarrow> MessageParam list \<Rightarrow> error + MessageParam list" where
  "dispatchCalls env meta [] conversation = Inr conversation"
| "dispatchCalls env meta (call # rest) conversation =
     (case map_of meta (callFunctionName call) of
        None \<Rightarrow> Inl (ErrUnknownTool (callFunctionName call))
      | Some metaEntry \<Rightarrow>
          (case (if callArguments call \<noteq> [] then unmarshal env (callArguments call) else Inr JNull) of
             Inl err \<Rightarrow> Inl (ErrInvalidToolArguments (callFunctionName call) err)
           | Inr args \<Rightarrow>
               (case callTool env (length conversation) (metaServer metaEntry) (metaToolName metaEntry) args of
                  Inl err \<Rightarrow> Inl (ErrToolFailed (callFunctionName call) err)
                | Inr result \<Rightarrow>
                    (let payload = JObject
                           [(''tool'', JString (metaToolName metaEntry)),
                            (''server'', JString (Instance (metaServer metaEntry))),
                            (''description'', JString (metaDescription metaEntry)),
                            (''result'', crResult result)];
                         data = marshal env payload
                     in dispatchCalls env meta rest (conversation @ [ToolMessage data (callID call)])))))"

text \<open>The request of one round, lines 129 to 135.\<close>

definition completionParams ::
  "stringsPkg \<Rightarrow> Mediator \<Rightarrow> ToolParam list \<Rightarrow> MessageParam list \<Rightarrow> ChatCompletionNewParams" where
  "completionParams lib m toolParams conversation =
     \<lparr>paramsModel = providerModelOrDefault lib m,
      paramsMessages = conversation,
      paramsTools = (if length toolParams > 0 then Some toolParams else None)\<rparr>"

text \<open>
  The \<open>for\<close> loop of \<open>HandleChat\<close>. It runs as long as the upstream model asks for tools, so the
  model takes a bound on the number of rounds: the result is the list of the requests sent
  upstream, and \<open>Some\<close> of what \<open>HandleChat\<close> returns, or \<open>None\<close> when the bound is used up
  before the loop returns. \<open>n\<close> counts the rounds already made.
\<close>

fun turnLoop ::
  "stringsPkg \<Rightarrow> nat \<Rightarrow> Mediator \<Rightarrow> Env \<Rightarrow> ToolParam list \<Rightarrow> (string \<times> toolMeta) list \<Rightarrow> nat \<Rightarrow> MessageParam list \<Rightarrow>
   ChatCompletionNewParams list \<times> (error + ChatCompletionResponse) option" where
  "turnLoop lib 0 m env toolParams meta n conversation = ([], None)"
| "turnLoop lib (Suc fuel) m env toolParams meta n conversation =
     (let params = completionParams lib m toolParams conversation
      in case upstream env n params of
           Inl err \<Rightarrow> ([params], Some (Inl err))
         | Inr None \<Rightarrow> ([params], Some (Inl ErrEmptyCompletion))
         | Inr (Some resp) \<Rightarrow>
             (case compChoices resp of
                [] \<Rightarrow> ([params], Some (Inl ErrEmptyCompletion))
              | choice # others \<Rightarrow>
                  (let conversation1 = conversation @ [AssistantParam (ccMessage choice)]
                   in if cmToolCalls (ccMessage choice) = [] then
                        (case buildOpenAIResponse (modelName m) resp of
                           None \<Rightarrow> ([params], Some (Inl ErrIndexOutOfRange))
                         | Some r \<Rightarrow> ([params], Some (Inr r)))
                      else
                        (case dispatchCalls env meta (cmToolCalls (ccMessage choice)) conversation1 of
                           Inl err \<Rightarrow> ([params], Some (Inl err))
                         | Inr conversation2 \<Rightarrow>
                             (case turnLoop lib fuel m env toolParams meta (Suc n) conversation2 of
                                (sent, out) \<Rightarrow> (params # sent, out))))))"

definition HandleChat ::
  "stringsPkg \<Rightarrow> nat \<Rightarrow> Mediator \<Rightarrow> Env \<Rightarrow> ChatCompletionRequest \<Rightarrow>
   ChatCompletionNewParams list \<times> (error + ChatCompletionResponse) option" where
  "HandleChat lib fuel m env req =
     (case Validate req of
        Some err \<Rightarrow> ([], Some (Inl err))
      | None \<Rightarrow>
          if reqStream req then ([], Some (Inl ErrStreamingUnsupported))
          else if reqModel req \<noteq> [] \<and> \<not> supportsModel m (reqModel req)
            then ([], Some (Inl (ErrModelUnsupported (reqModel req))))
          else if \<not> openaiClientSet m then ([], Some (Inl ErrOpenAINotConfigured))
          else
            (case collectTools lib m env of
               (toolParams, meta, descriptors, err) \<Rightarrow>
                 (let messages = convertMessages lib (reqMessages req);
                      messages1 =
                        (case err of
                           None \<Rightarrow> messages
                         | Some e \<Rightarrow>
                             messages @ [SystemMessage (''Warning: tool discovery error: '' @ errorText env e)])
                  in turnLoop lib fuel m env toolParams meta 0 messages1)))"

definition ListTools :: "stringsPkg \<Rightarrow> Mediator \<Rightarrow> Env \<Rightarrow> ToolDescriptor list \<times> error option" where
  "ListTools lib m env = (case collectTools lib m env of (toolParams, meta, descriptors, err) \<Rightarrow> (descriptors, err))"

section \<open>The chat API handler\<close>

text \<open>
  \<open>errors.Is\<close> follows the chain of wrapped errors; the two functions below are \<open>errors.Is\<close>
  for the two sentinels of the mediator.
\<close>

fun isModelUnsupported :: "error \<Rightarrow> bool" where
  "isModelUnsupported (ErrModelUnsupported model) = True"
| "isModelUnsupported (ErrInvalidToolArguments name err) = isModelUnsupported err"
| "isModelUnsupported (ErrToolFailed name err) = isModelUnsupported err"
| "isModelUnsupported (ErrInvalidServerURL target err) = isModelUnsupported err"
| "isModelUnsupported err = False"

fun isStreamingUnsupported :: "error \<Rightarrow> bool" where
  "isStreamingUnsupported ErrStreamingUnsupported = True"
| "isStreamingUnsupported (ErrInvalidToolArguments name err) = isStreamingUnsupported err"
| "isStreamingUnsupported (ErrToolFailed name err) = isStreamingUnsupported err"
| "isStreamingUnsupported (ErrInvalidServerURL target err) = isStreamingUnsupported err"
| "isStreamingUnsupported err = False"

record chatHTTPResponse =
  httpStatus :: nat
  httpBody :: "error + ChatCompletionResponse"

definition errorStatus :: "error \<Rightarrow> nat" where
  "errorStatus err =
     (if isModelUnsupported err then StatusNotFound
      else if isStreamingUnsupported err then StatusBadRequest
      else StatusInternalServerError)"

text \<open>
  \<open>handleChatCompletions\<close>. \<open>decoded\<close> is the result of decoding the request body; the answer
  is \<open>None\<close> only when the turn loop does not return within the bound.
\<close>

definition handleChatCompletions ::
  "stringsPkg \<Rightarrow> nat \<Rightarrow> Mediator \<Rightarrow> Env \<Rightarrow> error + ChatCompletionRequest \<Rightarrow> chatHTTPResponse option" where
  "handleChatCompletions lib fuel m env decoded =
     (case decoded of
        Inl err \<Rightarrow> Some \<lparr>httpStatus = StatusBadRequest, httpBody = Inl err\<rparr>
      | Inr req \<Rightarrow>
          (case snd (HandleChat lib fuel m env req) of
             None \<Rightarrow> None
           | Some (Inl err) \<Rightarrow> Some \<lparr>httpStatus = errorStatus err, httpBody = Inl err\<rparr>
           | Some (Inr resp) \<Rightarrow> Some \<lparr>httpStatus = StatusOK, httpBody = Inr resp\<rparr>))"

section \<open>Example values\<close>

text \<open>
  The first scenario of the specification: a mediator built with the default external model
  name, an empty registry, and an upstream endpoint that answers every request with the same
  completion, which carries two choices and the provider's model label.
\<close>

definition exampleMediator :: Mediator where
  "exampleMediator =
     New asciiStrings \<lparr>optModelName = [], optProviderModel = ''llama3'', optAllowedKinds = [],
          optToolClientSet = True, optOpenAIClientSet = True\<rparr>"

definition helloCompletion :: ChatCompletion where
  "helloCompletion =
     \<lparr>compID = ''cmpl-1'', compObject = ''chat.completion'', compCreated = 1700000000,
      compModel = ''llama3'',
      compChoices =
        [\<lparr>ccIndex = 0, ccFinishReason = ''stop'',
          ccMessage = \<lparr>cmContent = ''hello'', cmToolCalls = []\<rparr>\<rparr>,
         \<lparr>ccIndex = 1, ccFinishReason = ''stop'',
          ccMessage = \<lparr>cmContent = ''good day'', cmToolCalls = []\<rparr>\<rparr>],
      compUsage = \<lparr>PromptTokens = 1, CompletionTokens = 1, TotalTokens = 2\<rparr>\<rparr>"

definition helloResponse :: ChatCompletionResponse where
  "helloResponse =
     \<lparr>respID = ''cmpl-1'', respObject = ''chat.completion'', respCreated = 1700000000,
      respModel = ''go-agent-1'',
      respChoices =
        [\<lparr>chIndex = 0, chFinishReason = ''stop'',
          chMessage = \<lparr>amRole = ''assistant'', amContent = ''hello''\<rparr>\<rparr>],
      respUsage = \<lparr>PromptTokens = 1, CompletionTokens = 1, TotalTokens = 2\<rparr>\<rparr>"

definition emptyEnv :: Env where
  "emptyEnv =
     \<lparr>snapshot = [],
      listTools = (\<lambda>srv. Inr []),
      callTool = (\<lambda>n srv name args. Inl (ErrExternal ''no peer'')),
      upstream = (\<lambda>n params. Inr (Some helloCompletion)),
      unmarshal = (\<lambda>s. Inr JNull),
      marshal = (\<lambda>j. ''{}''),
      errorText = (\<lambda>e. ''error'')\<rparr>"

definition hiRequest :: ChatCompletionRequest where
  "hiRequest =
     \<lparr>reqModel = ''go-agent-1'',
      reqMessages = [\<lparr>msgRole = ''user'', msgContent = ''hi'', msgName = []\<rparr>],
      reqStream = False, reqUser = []\<rparr>"

definition emptyModelRequest :: ChatCompletionRequest where
  "emptyModelRequest =
     \<lparr>reqModel = [],
      reqMessages = [\<lparr>msgRole = ''user'', msgContent = ''hi'', msgName = []\<rparr>],
      reqStream = False, reqUser = []\<rparr>"

text \<open>
  A registry with three peers: two tool hosts whose instance names have the same slug, the
  first of which lists the tool \<open>run\<close> twice, and an orchestrator, which is not a tool host.
\<close>

definition nodeDashPeer :: ServerInfo where
  "nodeDashPeer =
     \<lparr>Instance = ''node-1'', Host = ''node-1.local.'', Port = 9000, Address = ''10.0.0.7:9000'',
      Kind = ''tool'', LastSeen = 0, Text = Some Map.empty\<rparr>"

definition nodeDotPeer :: ServerInfo where
  "nodeDotPeer =
     \<lparr>Instance = ''node.1'', Host = ''node.1.local.'', Port = 9000, Address = ''10.0.0.8:9000'',
      Kind = ''agent-wrapper'', LastSeen = 0, Text = Some Map.empty\<rparr>"

definition hubPeer :: ServerInfo where
  "hubPeer =
     \<lparr>Instance = ''hub'', Host = ''hub.local.'', Port = 8080, Address = ''10.0.0.9:8080'',
      Kind = ''orchestrator'', LastSeen = 0, Text = Some Map.empty\<rparr>"

definition runTool :: ToolDefinition where
  "runTool = \<lparr>toolName = ''run'', toolDescription = ''Runs a job'', toolParameters = JObject []\<rparr>"

definition rosterEnv :: Env where
  "rosterEnv =
     \<lparr>snapshot = [nodeDashPeer, hubPeer, nodeDotPeer],
      listTools = (\<lambda>srv. if Instance srv = ''node-1'' then Inr [runTool, runTool] else Inr [runTool]),
      callTool = (\<lambda>n srv name args. Inl (ErrExternal ''no peer'')),
      upstream = (\<lambda>n params. Inr (Some helloCompletion)),
      unmarshal = (\<lambda>s. Inr JNull),
      marshal = (\<lambda>j. ''{}''),
      errorText = (\<lambda>e. ''error'')\<rparr>"

section \<open>The naming rule of the specification\<close>

text \<open>
  The specification's rule for function names, written without the loops of the code. The
  name of a tool is the slug of the instance, two underscores and the slug of the tool name;
  when that name is taken, the suffix \<open>__2\<close>, \<open>__3\<close>, \<open>\<dots>\<close> is appended, the first one that
  gives a free name. \<open>candidates base n\<close> lists the plain name and the suffixed names up to
  \<open>n + 1\<close>; with \<open>n\<close> names taken, one of them is free. \<open>specRoster\<close> names a list of tools, each
  given as its peer's instance and its tool name, one after the other.
\<close>

definition candidates :: "string \<Rightarrow> nat \<Rightarrow> string list" where
  "candidates base n = base # map (\<lambda>k. base @ ''__'' @ itoa k) [2..<n + 2]"

definition specFunctionName :: "stringsPkg \<Rightarrow> string \<Rightarrow> string \<Rightarrow> string list \<Rightarrow> string" where
  "specFunctionName lib inst tool used =
     (let base = slugify lib inst @ ''__'' @ slugify lib tool
      in case find (\<lambda>c. c \<notin> set used) (candidates base (length used)) of
           Some c \<Rightarrow> c
         | None \<Rightarrow> base)"

fun specRoster :: "stringsPkg \<Rightarrow> (string \<times> string) list \<Rightarrow> string list \<Rightarrow> string list" where
  "specRoster lib [] used = []"
| "specRoster lib ((inst, tool) # rest) used =
     (let name = specFunctionName lib inst tool used
      in name # specRoster lib rest (name # used))"

text \<open>
  The tools a snapshot offers, in the order the peers are visited: a peer counts when its
  kind is allowed and is \<open>tool\<close> or \<open>agent-wrapper\<close> and its \<open>/tools/list\<close> succeeds.
\<close>

definition offeredBy :: "stringsPkg \<Rightarrow> Mediator \<Rightarrow> Env \<Rightarrow> ServerInfo \<Rightarrow> (string \<times> string) list" where
  "offeredBy lib m env srv =
     (if (allowedKinds m = [] \<or> ToLower lib (TrimSpace lib (Kind srv)) \<in> set (allowedKinds m)) \<and>
         (ToLower lib (TrimSpace lib (Kind srv)) = ToLower lib ''tool'' \<or>
          ToLower lib (TrimSpace lib (Kind srv)) = ToLower lib ''agent-wrapper'')
      then (case listTools env srv of
              Inl err \<Rightarrow> []
            | Inr ts \<Rightarrow> map (\<lambda>t. (Instance srv, toolName t)) ts)
      else [])"

definition offeredTools :: "stringsPkg \<Rightarrow> Mediator \<Rightarrow> Env \<Rightarrow> (string \<times> string) list" where
  "offeredTools lib m env = concat (map (offeredBy lib m env) (snapshot env))"

section \<open>The invariant of the roster construction\<close>

text \<open>
  A name is well formed for an entry of the side index when it is the namespaced name of the
  entry's peer and tool, with or without a numeric suffix. While \<open>collectTools\<close> runs, the
  names of the roster are pairwise different, every one of them is a key of the side index,
  and every key of the side index is well formed for its entry.
\<close>

definition wellNamed :: "stringsPkg \<Rightarrow> string \<Rightarrow> toolMeta \<Rightarrow> bool" where
  "wellNamed lib name entry =
     (let base = slugify lib (Instance (metaServer entry)) @ ''__'' @ slugify lib (metaToolName entry)
      in name = base \<or> (\<exists>k\<ge>2. name = base @ ''__'' @ itoa k))"

definition rosterInv :: "stringsPkg \<Rightarrow> collected \<Rightarrow> bool" where
  "rosterInv lib st =
     (distinct (map tpName (colToolParams st)) \<and>
      (\<forall>tp\<in>set (colToolParams st). \<exists>entry. map_of (colMeta st) (tpName tp) = Some entry) \<and>
      (\<forall>name entry. map_of (colMeta st) name = Some entry \<longrightarrow> wellNamed lib name entry))"

section \<open>Auxiliary facts\<close>

subsection \<open>Facts about the byte-wise string functions\<close>

lemma isSpace_iff:
  "isSpace c = ((of_char c :: nat) = 9 \<or> (of_char c :: nat) = 10 \<or> (of_char c :: nat) = 11 \<or>
     (of_char c :: nat) = 12 \<or> (of_char c :: nat) = 13 \<or> (of_char c :: nat) = 32)"
proof -
  have e: "\<And>d. (c = d) = ((of_char c :: nat) = of_char d)" by simp
  show ?thesis unfolding isSpace_def
    by (simp only: e[of "CHR 0x09"] e[of "CHR 0x0A"] e[of "CHR 0x0B"] e[of "CHR 0x0C"]
          e[of "CHR 0x0D"] e[of "CHR '' ''"]) simp
qed

lemma isSpace_not_upper: "isSpace c \<Longrightarrow> \<not> isUpper c"
  by (auto simp: isSpace_iff isUpper_def)

lemma toLowerChar_not_upper: "\<not> isUpper (toLowerChar c)"
  by (auto simp: toLowerChar_def isUpper_def)

lemma toLowerChar_fixed: "\<not> isUpper c \<Longrightarrow> toLowerChar c = c"
  by (simp add: toLowerChar_def)

lemma isSpace_toLowerChar: "isSpace (toLowerChar c) = isSpace c"
proof (cases "isUpper c")
  case True
  then have "\<not> isSpace c" using isSpace_not_upper by blast
  moreover have "\<not> isSpace (toLowerChar c)"
    using True by (auto simp: toLowerChar_def isUpper_def isSpace_iff)
  ultimately show ?thesis by simp
next
  case False
  then show ?thesis by (simp add: toLowerChar_def)
qed

lemma last_dropWhile_keep: "dropWhile P xs \<noteq> [] \<Longrightarrow> last (dropWhile P xs) = last xs"
proof -
  assume ne: "dropWhile P xs \<noteq> []"
  have "last xs = last (takeWhile P xs @ dropWhile P xs)" by simp
  also have "\<dots> = last (dropWhile P xs)" using ne by (rule last_appendR)
  finally show ?thesis by simp
qed

lemma asciiTrimSpace_ends:
  assumes "asciiTrimSpace s \<noteq> []"
  shows "\<not> isSpace (hd (asciiTrimSpace s)) \<and> \<not> isSpace (last (asciiTrimSpace s))"
proof -
  let ?t = "dropWhile isSpace s"
  let ?u = "dropWhile isSpace (rev ?t)"
  have u: "?u \<noteq> []" using assms by (simp add: asciiTrimSpace_def)
  have t: "?t \<noteq> []"
  proof
    assume a: "?t = []"
    have "?u = []" unfolding a by simp
    with u show False by blast
  qed
  have "last (asciiTrimSpace s) = hd ?u" using u by (simp add: asciiTrimSpace_def last_rev)
  moreover have "\<not> isSpace (hd ?u)" using u by (rule hd_dropWhile)
  moreover have "hd (asciiTrimSpace s) = last ?u" using u by (simp add: asciiTrimSpace_def hd_rev)
  moreover have "last ?u = last (rev ?t)" using u by (rule last_dropWhile_keep)
  moreover have "last (rev ?t) = hd ?t" using t by (simp add: last_rev)
  moreover have "\<not> isSpace (hd ?t)" using t by (rule hd_dropWhile)
  ultimately show ?thesis by simp
qed

lemma asciiTrimSpace_fixed:
  assumes "s = [] \<or> (\<not> isSpace (hd s) \<and> \<not> isSpace (last s))"
  shows "asciiTrimSpace s = s"
proof (cases s)
  case Nil
  then show ?thesis by (simp add: asciiTrimSpace_def)
next
  case (Cons a as)
  with assms have h: "\<not> isSpace a" and l: "\<not> isSpace (last s)" by auto
  have d1: "dropWhile isSpace s = s" using Cons h by simp
  have "rev s \<noteq> []" using Cons by simp
  then obtain b bs where bs: "rev s = b # bs" by (cases "rev s") auto
  have "hd (rev s) = last s" using Cons by (simp add: hd_rev)
  with bs have "b = last s" by simp
  with l have "\<not> isSpace b" by simp
  then have d2: "dropWhile isSpace (rev s) = rev s" unfolding bs by simp
  show ?thesis by (simp add: asciiTrimSpace_def d1 d2)
qed

lemma asciiTrimSpace_idem: "asciiTrimSpace (asciiTrimSpace s) = asciiTrimSpace s"
  using asciiTrimSpace_ends[of s] by (intro asciiTrimSpace_fixed) blast

lemma replaceChar_idem: "replaceChar (replaceChar c) = replaceChar c"
  by (simp add: replaceChar_def)

lemma replaceChar_space: "\<not> isSpace c \<Longrightarrow> \<not> isSpace (replaceChar c)"
  by (auto simp: replaceChar_def isSpace_def)

lemma replaceChar_upper: "\<not> isUpper c \<Longrightarrow> \<not> isUpper (replaceChar c)"
  by (auto simp: replaceChar_def isUpper_def)

lemma toLowerChar_idem: "toLowerChar (toLowerChar c) = toLowerChar c"
  using toLowerChar_not_upper [of c] by (rule toLowerChar_fixed)

lemma replaceChar_not_upper: "isUpper c \<Longrightarrow> replaceChar c = c"
  by (auto simp: replaceChar_def isUpper_def)

lemma toLowerChar_replaceChar: "toLowerChar (replaceChar c) = replaceChar (toLowerChar c)"
proof (cases "isUpper c")
  case True
  have "\<not> isUpper (toLowerChar c)" by (rule toLowerChar_not_upper)
  moreover have "(of_char (toLowerChar c) :: nat) = of_char c + 32"
    using True by (auto simp: toLowerChar_def isUpper_def)
  ultimately have "replaceChar (toLowerChar c) = toLowerChar c"
    using True by (auto simp: replaceChar_def isUpper_def)
  with True show ?thesis by (simp add: replaceChar_not_upper)
next
  case False
  then have "\<not> isUpper (replaceChar c)" by (rule replaceChar_upper)
  with False show ?thesis by (simp add: toLowerChar_fixed)
qed

lemma asciiStrings_sel [simp]:
  "TrimSpace asciiStrings = asciiTrimSpace" "ToLower asciiStrings = asciiToLower"
  "ToUpper asciiStrings = asciiToUpper"
  by (simp_all add: asciiStrings_def)

lemma asciiTrimSpace_lower:
  "asciiTrimSpace (asciiToLower (asciiTrimSpace s)) = asciiToLower (asciiTrimSpace s)"
proof (cases "asciiTrimSpace s = []")
  case True
  have "asciiTrimSpace [] = []" by (simp add: asciiTrimSpace_def)
  then show ?thesis unfolding True by (simp add: asciiToLower_def)
next
  case False
  let ?t = "asciiTrimSpace s"
  have "hd (asciiToLower ?t) = toLowerChar (hd ?t)" "last (asciiToLower ?t) = toLowerChar (last ?t)"
    using False by (simp_all add: asciiToLower_def hd_map last_map)
  with asciiTrimSpace_ends [OF False]
  have "\<not> isSpace (hd (asciiToLower ?t)) \<and> \<not> isSpace (last (asciiToLower ?t))"
    by (simp add: isSpace_toLowerChar)
  then show ?thesis by (intro asciiTrimSpace_fixed) simp
qed

lemma asciiTrimSpace_replace:
  assumes "asciiTrimSpace s = s"
  shows "asciiTrimSpace (map replaceChar s) = map replaceChar s"
proof (cases "s = []")
  case True
  then show ?thesis by (simp add: asciiTrimSpace_def)
next
  case False
  with assms have ne: "asciiTrimSpace s \<noteq> []" by simp
  from asciiTrimSpace_ends [OF ne] assms
  have e: "\<not> isSpace (hd s)" "\<not> isSpace (last s)" by simp_all
  have "hd (map replaceChar s) = replaceChar (hd s)" "last (map replaceChar s) = replaceChar (last s)"
    using False by (simp_all add: hd_map last_map)
  with e have "\<not> isSpace (hd (map replaceChar s)) \<and> \<not> isSpace (last (map replaceChar s))"
    by (simp add: replaceChar_space)
  then show ?thesis by (intro asciiTrimSpace_fixed) simp
qed

lemma asciiStrings_laws: "stringsLaws asciiStrings"
  unfolding stringsLaws_def
proof (intro conjI allI impI)
  fix s
  show "TrimSpace asciiStrings s = asciiTrimSpace s" by simp
  show "ToLower asciiStrings s = asciiToLower s" by simp
  show "ToLower asciiStrings (ToLower asciiStrings s) = ToLower asciiStrings s"
    by (simp add: asciiToLower_def toLowerChar_idem)
  show "TrimSpace asciiStrings (ToLower asciiStrings (TrimSpace asciiStrings s)) =
      ToLower asciiStrings (TrimSpace asciiStrings s)"
    by (simp add: asciiTrimSpace_lower)
  show "ToLower asciiStrings (map replaceChar s) = map replaceChar (ToLower asciiStrings s)"
    by (simp add: asciiToLower_def toLowerChar_replaceChar)
next
  fix s
  assume "TrimSpace asciiStrings s = s"
  then show "TrimSpace asciiStrings (map replaceChar s) = map replaceChar s"
    by (simp add: asciiTrimSpace_replace)
qed

lemma tool_fixed: "asciiTrimSpace ''tool'' = ''tool''" "asciiToLower ''tool'' = ''tool''"
  by code_simp+

lemma isASCII_tool: "isASCII ''tool''"
  by (simp add: isASCII_def)

lemma slug_example: "slugify asciiStrings '' My-Tool.v1 '' = ''my_tool_v1''"
  by code_simp

subsection \<open>Facts about TXT records\<close>

lemma parseTxtRecord_append:
  "CHR ''='' \<notin> set k \<Longrightarrow> parseTxtRecord (k @ CHR ''='' # v) = Some (k, v)"
proof -
  assume a: "CHR ''='' \<notin> set k"
  have t: "takeWhile (\<lambda>c. c \<noteq> CHR ''='') (k @ CHR ''='' # v) = k"
    using a by (induction k) auto
  have d: "dropWhile (\<lambda>c. c \<noteq> CHR ''='') (k @ CHR ''='' # v) = CHR ''='' # v"
    using a by (induction k) auto
  show ?thesis by (simp add: parseTxtRecord_def t d)
qed

lemma gatewayEntry_role:
  "textGet (Some (buildTextMap (entryText gatewayEntry))) ''role'' = '' Gateway ''"
proof -
  have p1: "parseTxtRecord ''role= Gateway '' = Some (''role'', '' Gateway '')" by code_simp
  have p2: "parseTxtRecord ''model=m'' = Some (''model'', ''m'')" by code_simp
  show ?thesis
    by (simp add: gatewayEntry_def buildTextMap_def storeTxt_def p1 p2 textGet_def)
qed

lemma gateway_lower: "asciiToLower (asciiTrimSpace '' Gateway '') = ''gateway''"
  by code_simp

subsection \<open>Facts about the MCP client and the tool server\<close>

lemma trim_blank: "asciiTrimSpace '' '' = []" by code_simp

lemma trim_empty: "asciiTrimSpace [] = []" by (simp add: asciiTrimSpace_def)

lemma trim_addr: "asciiTrimSpace ''10.0.0.5:9000'' = ''10.0.0.5:9000''" by code_simp

lemma trim_url: "asciiTrimSpace ''https://peer.example:8443/base?x=1'' \<noteq> []" by code_simp

lemma trim_hostport: "asciiTrimSpace ''peer.example:8443'' \<noteq> []" by code_simp

lemma endpointPath_list: "endpointPath ''/tools/list'' = ''/tools/list''"
  by (simp add: endpointPath_def HasPrefix_def)

lemma endpointPath_slash: "\<exists>rest. endpointPath path = CHR ''/'' # rest"
proof (cases "HasPrefix path ''/''")
  case True
  then have "take 1 path = ''/''" by (simp add: HasPrefix_def)
  then have "path = CHR ''/'' # tl path" by (cases path) auto
  with True show ?thesis by (auto simp: endpointPath_def)
next
  case False
  then show ?thesis by (simp add: endpointPath_def)
qed

lemma URLString_hierarchical:
  assumes op: "urlOpaque u = []"
    and p: "urlPath u = CHR ''/'' # rest"
    and raw: "urlRawPath u = [] \<or> unescape net (urlRawPath u) encodePath \<noteq> Some (urlPath u)"
    and esc: "escape net (urlPath u) encodePath = urlPath u"
  shows "URLString net u =
      (if urlScheme u \<noteq> [] then urlScheme u @ '':'' else [])
      @ (if (urlScheme u \<noteq> [] \<or> urlHost u \<noteq> [] \<or> urlUser u \<noteq> None) \<and>
            \<not> (urlOmitHost u \<and> urlHost u = [] \<and> urlUser u = None)
         then ''//'' @ (case urlUser u of None \<Rightarrow> [] | Some ui \<Rightarrow> ui @ ''@'')
              @ (if urlHost u \<noteq> [] then escape net (urlHost u) encodeHost else [])
         else [])
      @ urlPath u
      @ (if urlForceQuery u \<or> urlRawQuery u \<noteq> [] then ''?'' @ urlRawQuery u else [])
      @ (if urlFragment u \<noteq> [] then ''#'' @ EscapedFragment net u else [])"
proof -
  have star: "urlPath u \<noteq> ''*''" using p by simp
  have ep: "EscapedPath net u = urlPath u"
    using raw esc star by (auto simp: EscapedPath_def)
  show ?thesis
    unfolding URLString_def Let_def ep
    using op p by (auto split: option.splits)
qed

lemma lookupToolIn_missing:
  "name \<notin> tdName ` set ts \<Longrightarrow> lookupToolIn ts name = Inl (ErrToolNotFound name)"
  by (induction ts) auto

lemma lookupToolIn_found:
  "name \<in> tdName ` set ts \<Longrightarrow> \<exists>d. lookupToolIn ts name = Inr d \<and> tdName d = name"
  by (induction ts) auto

lemma newToolServer_names:
  "map tdName (tools (newToolServer asciiStrings)) = [''http_get'', ''http_post'', ''http_put'', ''http_patch'', ''http_delete'']"
proof -
  have "ToLower asciiStrings ''GET'' = ''get''" "ToLower asciiStrings ''POST'' = ''post''" "ToLower asciiStrings ''PUT'' = ''put''"
    "ToLower asciiStrings ''PATCH'' = ''patch''" "ToLower asciiStrings ''DELETE'' = ''delete''"
    by code_simp+
  then show ?thesis by (simp add: newToolServer_def makeToolDefinition_def)
qed

subsection \<open>Facts about request admission\<close>

lemma missingRole_found:
  "\<exists>msg\<in>set msgs. msgRole msg = [] \<Longrightarrow> \<exists>i. missingRole msgs k = Some i"
  by (induction msgs arbitrary: k) auto

lemma Validate_fails:
  assumes "reqModel req = [] \<or> reqMessages req = [] \<or> (\<exists>msg\<in>set (reqMessages req). msgRole msg = [])"
  shows "Validate req = Some ErrModelRequired \<or> Validate req = Some ErrNoMessages
     \<or> (\<exists>i. Validate req = Some (ErrMissingRole i))"
proof (cases "reqModel req = []")
  case True
  then show ?thesis by (simp add: Validate_def)
next
  case m: False
  show ?thesis
  proof (cases "reqMessages req = []")
    case True
    with m show ?thesis by (simp add: Validate_def)
  next
    case False
    with m assms have "\<exists>msg\<in>set (reqMessages req). msgRole msg = []" by blast
    then obtain i where "missingRole (reqMessages req) 0 = Some i"
      using missingRole_found by blast
    with m False show ?thesis by (simp add: Validate_def)
  qed
qed

lemma HandleChat_invalid:
  "Validate req = Some err \<Longrightarrow> HandleChat lib fuel m env req = ([], Some (Inl err))"
  by (simp add: HandleChat_def)

lemma exampleMediator_fields:
  "modelName exampleMediator = ''go-agent-1''" "providerModel exampleMediator = ''llama3''"
  "openaiClientSet exampleMediator" "toolClientSet exampleMediator" "allowedKinds exampleMediator = []"
  by (simp_all add: exampleMediator_def New_def)

subsection \<open>Facts about the turn loop\<close>

lemma turnLoop_tools:
  "p \<in> set (fst (turnLoop lib fuel m env toolParams meta n conversation)) \<Longrightarrow>
   paramsTools p = (if length toolParams > 0 then Some toolParams else None)"
proof (induction fuel arbitrary: n conversation p)
  case 0
  then show ?case by simp
next
  case (Suc fuel)
  let ?params = "completionParams lib m toolParams conversation"
  have head: "paramsTools ?params = (if length toolParams > 0 then Some toolParams else None)"
    by (simp add: completionParams_def)
  from Suc.prems have "p = ?params \<or>
      (\<exists>k c rest out. turnLoop lib fuel m env toolParams meta k c = (rest, out) \<and> p \<in> set rest)"
    by (auto simp: Let_def split: sum.splits option.splits list.splits if_splits prod.splits)
  then show ?case
  proof
    assume "p = ?params"
    with head show ?thesis by simp
  next
    assume "\<exists>k c rest out. turnLoop lib fuel m env toolParams meta k c = (rest, out) \<and> p \<in> set rest"
    then obtain k c rest out where "turnLoop lib fuel m env toolParams meta k c = (rest, out)"
      and "p \<in> set rest" by blast
    then have "p \<in> set (fst (turnLoop lib fuel m env toolParams meta k c))" by simp
    then show ?thesis by (rule Suc.IH)
  qed
qed

lemma collectTools_empty: "snapshot env = [] \<Longrightarrow> collectTools lib m env = ([], [], [], None)"
  by (simp add: collectTools_def)

lemma HandleChat_sent:
  "fst (HandleChat lib fuel m env req) = [] \<or>
   (\<exists>toolParams meta descriptors err conversation.
      collectTools lib m env = (toolParams, meta, descriptors, err) \<and>
      fst (HandleChat lib fuel m env req) = fst (turnLoop lib fuel m env toolParams meta 0 conversation))"
  by (cases "collectTools lib m env")
     (auto simp: HandleChat_def Let_def split: option.splits)

lemma lower_user: "asciiToLower ''user'' = ''user''" by code_simp

lemma trim_llama: "asciiTrimSpace ''llama3'' = ''llama3''" by code_simp

lemma hello_turn:
  "HandleChat asciiStrings (Suc 0) exampleMediator emptyEnv hiRequest =
     ([\<lparr>paramsModel = ''llama3'', paramsMessages = [UserMessage ''hi''], paramsTools = None\<rparr>],
      Some (Inr helloResponse))"
proof -
  have v: "Validate hiRequest = None" by (simp add: Validate_def hiRequest_def)
  have c: "collectTools asciiStrings exampleMediator emptyEnv = ([], [], [], None)"
    by (simp add: collectTools_def emptyEnv_def)
  have msgs: "convertMessages asciiStrings (reqMessages hiRequest) = [UserMessage ''hi'']"
    by (simp add: convertMessages_def convertMessage_def hiRequest_def lower_user)
  have pm: "providerModelOrDefault asciiStrings exampleMediator = ''llama3''"
    by (simp add: providerModelOrDefault_def exampleMediator_fields trim_llama)
  have b: "buildOpenAIResponse ''go-agent-1'' helloCompletion = Some helloResponse"
    by (simp add: buildOpenAIResponse_def helloCompletion_def helloResponse_def)
  have up: "\<And>n p. upstream emptyEnv n p = Inr (Some helloCompletion)"
    by (simp add: emptyEnv_def)
  have hc: "compChoices helloCompletion =
      [\<lparr>ccIndex = 0, ccFinishReason = ''stop'', ccMessage = \<lparr>cmContent = ''hello'', cmToolCalls = []\<rparr>\<rparr>,
       \<lparr>ccIndex = 1, ccFinishReason = ''stop'', ccMessage = \<lparr>cmContent = ''good day'', cmToolCalls = []\<rparr>\<rparr>]"
    by (simp add: helloCompletion_def)
  have t: "turnLoop asciiStrings (Suc 0) exampleMediator emptyEnv [] [] 0 [UserMessage ''hi''] =
     ([\<lparr>paramsModel = ''llama3'', paramsMessages = [UserMessage ''hi''], paramsTools = None\<rparr>],
      Some (Inr helloResponse))"
    by (simp add: completionParams_def pm up hc b exampleMediator_fields)
  have r: "\<not> reqStream hiRequest" "reqModel hiRequest = ''go-agent-1''"
    by (simp_all add: hiRequest_def)
  have "HandleChat asciiStrings (Suc 0) exampleMediator emptyEnv hiRequest =
      turnLoop asciiStrings (Suc 0) exampleMediator emptyEnv [] [] 0 [UserMessage ''hi'']"
    by (simp add: HandleChat_def v r supportsModel_def exampleMediator_fields c msgs
        del: turnLoop.simps)
  then show ?thesis by (simp only: t)
qed

lemma turnLoop_success:
  "turnLoop lib fuel m env toolParams meta n conversation = (sent, Some (Inr resp)) \<Longrightarrow>
   sent \<noteq> [] \<and>
   (\<exists>completion choice others.
      upstream env (n + length sent - 1) (last sent) = Inr (Some completion) \<and>
      compChoices completion = choice # others \<and>
      cmToolCalls (ccMessage choice) = [] \<and>
      buildOpenAIResponse (modelName m) completion = Some resp)"
proof (induction fuel arbitrary: n conversation sent)
  case 0
  then show ?case by simp
next
  case (Suc fuel)
  let ?params = "completionParams lib m toolParams conversation"
  from Suc.prems have
    "(sent = [?params] \<and>
      (\<exists>completion choice others.
         upstream env n ?params = Inr (Some completion) \<and>
         compChoices completion = choice # others \<and>
         cmToolCalls (ccMessage choice) = [] \<and>
         buildOpenAIResponse (modelName m) completion = Some resp))
     \<or> (\<exists>rest c. sent = ?params # rest \<and>
           turnLoop lib fuel m env toolParams meta (Suc n) c = (rest, Some (Inr resp)))"
    by (auto simp: Let_def split: sum.splits option.splits list.splits if_splits prod.splits)
  then show ?case
  proof
    assume "sent = [?params] \<and>
      (\<exists>completion choice others.
         upstream env n ?params = Inr (Some completion) \<and>
         compChoices completion = choice # others \<and>
         cmToolCalls (ccMessage choice) = [] \<and>
         buildOpenAIResponse (modelName m) completion = Some resp)"
    then show ?thesis by auto
  next
    assume "\<exists>rest c. sent = ?params # rest \<and>
           turnLoop lib fuel m env toolParams meta (Suc n) c = (rest, Some (Inr resp))"
    then obtain rest c where s: "sent = ?params # rest"
      and t: "turnLoop lib fuel m env toolParams meta (Suc n) c = (rest, Some (Inr resp))" by blast
    from Suc.IH [OF t] obtain completion choice others where
      ne: "rest \<noteq> []" and
      u: "upstream env (Suc n + length rest - 1) (last rest) = Inr (Some completion)" and
      rest_facts: "compChoices completion = choice # others" "cmToolCalls (ccMessage choice) = []"
        "buildOpenAIResponse (modelName m) completion = Some resp"
      by blast
    have "n + length sent - 1 = Suc n + length rest - 1" using s ne by simp
    moreover have "last sent = last rest" using s ne by simp
    ultimately show ?thesis using s u rest_facts by auto
  qed
qed

subsection \<open>Facts about the roster\<close>

lemma loop_fresh: "buildFunctionName_loop base name i existing \<notin> set existing"
proof (induction base name i existing rule: buildFunctionName_loop.induct)
  case (1 base name i existing)
  then show ?case by (subst buildFunctionName_loop.simps) simp
qed

lemma loop_unused:
  "name \<notin> set existing \<Longrightarrow> buildFunctionName_loop base name i existing = name"
  by (subst buildFunctionName_loop.simps) simp

lemma loop_used:
  "name \<in> set existing \<Longrightarrow>
   \<exists>k\<ge>i. buildFunctionName_loop base name i existing = base @ ''__'' @ itoa k \<and>
         (\<forall>j. i \<le> j \<and> j < k \<longrightarrow> base @ ''__'' @ itoa j \<in> set existing)"
proof (induction base name i existing rule: buildFunctionName_loop.induct)
  case (1 base name i existing)
  let ?c = "base @ ''__'' @ itoa i"
  have step: "buildFunctionName_loop base name i existing =
      buildFunctionName_loop base ?c (i + 1) existing"
    using "1.prems" by (subst buildFunctionName_loop.simps) simp
  show ?case
  proof (cases "?c \<in> set existing")
    case False
    then have "buildFunctionName_loop base ?c (i + 1) existing = ?c" by (rule loop_unused)
    with step show ?thesis by (intro exI[of _ i]) auto
  next
    case True
    from "1.IH" [OF _ True] "1.prems" obtain k where k: "i + 1 \<le> k"
      and r: "buildFunctionName_loop base ?c (i + 1) existing = base @ ''__'' @ itoa k"
      and below: "\<forall>j. i + 1 \<le> j \<and> j < k \<longrightarrow> base @ ''__'' @ itoa j \<in> set existing"
      by auto
    have "\<forall>j. i \<le> j \<and> j < k \<longrightarrow> base @ ''__'' @ itoa j \<in> set existing"
    proof (intro allI impI)
      fix j assume j: "i \<le> j \<and> j < k"
      show "base @ ''__'' @ itoa j \<in> set existing"
      proof (cases "j = i")
        case True
        with \<open>?c \<in> set existing\<close> show ?thesis by simp
      next
        case False
        with j have "i + 1 \<le> j \<and> j < k" by simp
        with below show ?thesis by blast
      qed
    qed
    with k r step show ?thesis by (intro exI[of _ k]) simp
  qed
qed

lemma buildFunctionName_rule:
  "(let base = slugify lib inst @ ''__'' @ slugify lib tool;
        name = buildFunctionName lib inst tool existing
    in name \<notin> fst ` set existing \<and>
       (base \<notin> fst ` set existing \<longrightarrow> name = base) \<and>
       (base \<in> fst ` set existing \<longrightarrow>
          (\<exists>k\<ge>2. name = base @ ''__'' @ itoa k \<and>
             (\<forall>j. 2 \<le> j \<and> j < k \<longrightarrow> base @ ''__'' @ itoa j \<in> fst ` set existing))))"
proof -
  define base where "base = slugify lib inst @ ''__'' @ slugify lib tool"
  define keys where "keys = map fst existing"
  have s: "set keys = fst ` set existing" by (simp add: keys_def)
  have n: "buildFunctionName lib inst tool existing = buildFunctionName_loop base base 2 keys"
    by (simp add: buildFunctionName_def base_def keys_def Let_def)
  have a1: "buildFunctionName_loop base base 2 keys \<notin> set keys" by (rule loop_fresh)
  have a2: "base \<notin> set keys \<longrightarrow> buildFunctionName_loop base base 2 keys = base"
    using loop_unused by blast
  have a3: "base \<in> set keys \<longrightarrow>
      (\<exists>k\<ge>2. buildFunctionName_loop base base 2 keys = base @ ''__'' @ itoa k \<and>
         (\<forall>j. 2 \<le> j \<and> j < k \<longrightarrow> base @ ''__'' @ itoa j \<in> set keys))"
    using loop_used by blast
  from a1 a2 a3 show ?thesis
    unfolding Let_def n base_def [symmetric] s by blast
qed

lemma buildFunctionName_fresh:
  "buildFunctionName lib inst tool existing \<notin> fst ` set existing"
  using buildFunctionName_rule [of lib inst tool existing] by (simp add: Let_def)

lemma buildFunctionName_wellNamed:
  "metaServer entry = srv \<Longrightarrow> metaToolName entry = tool \<Longrightarrow>
   wellNamed lib (buildFunctionName lib (Instance srv) tool existing) entry"
  using buildFunctionName_rule [of lib "Instance srv" tool existing]
  by (auto simp: wellNamed_def Let_def)

lemma addTool_inv:
  assumes "rosterInv lib st"
  shows "rosterInv lib (addTool lib srv st tool)"
proof -
  let ?n = "buildFunctionName lib (Instance srv) (toolName tool) (colMeta st)"
  let ?d = "buildToolDescription lib (toolDescription tool) (Some srv)"
  let ?e = "\<lparr>metaServer = srv, metaToolName = toolName tool, metaDescription = ?d,
            metaOriginalName = toolName tool\<rparr>"
  have fresh: "?n \<notin> fst ` set (colMeta st)" by (rule buildFunctionName_fresh)
  then have nomap: "map_of (colMeta st) ?n = None" by (simp add: map_of_eq_None_iff)
  have tps: "colToolParams (addTool lib srv st tool) =
      colToolParams st @ [\<lparr>tpName = ?n, tpDescription = ?d, tpParameters = toolParameters tool\<rparr>]"
    by (simp add: addTool_def Let_def)
  have meta: "map_of (colMeta (addTool lib srv st tool)) = (map_of (colMeta st))(?n \<mapsto> ?e)"
    by (simp add: addTool_def Let_def update_conv')
  have old: "\<forall>tp\<in>set (colToolParams st). tpName tp \<noteq> ?n"
    using assms nomap by (auto simp: rosterInv_def)
  have d: "distinct (map tpName (colToolParams (addTool lib srv st tool)))"
    using assms old by (auto simp: tps rosterInv_def)
  have l: "\<forall>tp\<in>set (colToolParams (addTool lib srv st tool)).
      \<exists>entry. map_of (colMeta (addTool lib srv st tool)) (tpName tp) = Some entry"
    using assms by (auto simp: tps meta rosterInv_def)
  have w: "wellNamed lib ?n ?e" by (rule buildFunctionName_wellNamed) simp_all
  have n: "\<forall>name entry. map_of (colMeta (addTool lib srv st tool)) name = Some entry \<longrightarrow>
      wellNamed lib name entry"
    using assms w by (auto simp: meta rosterInv_def)
  from d l n show ?thesis unfolding rosterInv_def by blast
qed

lemma addTools_inv: "rosterInv lib st \<Longrightarrow> rosterInv lib (foldl (addTool lib srv) st ts)"
  by (induction ts arbitrary: st) (simp_all add: addTool_inv)

lemma visitServer_inv: "rosterInv lib st \<Longrightarrow> rosterInv lib (visitServer lib m env st srv)"
proof -
  assume a: "rosterInv lib st"
  have e: "\<And>err. rosterInv lib (st\<lparr>colLastErr := Some err\<rparr>)"
    using a by (simp add: rosterInv_def)
  show ?thesis
    using a e by (simp add: visitServer_def addTools_inv split: sum.splits)
qed

lemma visitServers_inv: "rosterInv lib st \<Longrightarrow> rosterInv lib (foldl (visitServer lib m env) st srvs)"
  by (induction srvs arbitrary: st) (simp_all add: visitServer_inv)

lemma rosterInv_init:
  "rosterInv lib \<lparr>colToolParams = [], colMeta = [], colDescriptors = [], colLastErr = None\<rparr>"
  by (simp add: rosterInv_def)

lemma map_insort_key: "map f (insort_key f x xs) = insort (f x) (map f xs)"
  by (induction xs) simp_all

lemma map_sort_key: "map f (sort_key f xs) = sort (map f xs)"
  by (induction xs) (simp_all add: map_insort_key)

lemma roster_example:
  "map tpName (fst (collectTools asciiStrings exampleMediator rosterEnv)) =
     [''node_1__run'', ''node_1__run__2'', ''node_1__run__3'']"
  by code_simp

subsection \<open>The roster follows the naming rule of the specification\<close>

lemma loop_cong:
  "set e1 = set e2 \<Longrightarrow>
   buildFunctionName_loop base name i e1 = buildFunctionName_loop base name i e2"
proof (induction base name i e1 rule: buildFunctionName_loop.induct)
  case (1 base name i existing)
  show ?case
  proof (cases "name \<in> set existing")
    case False
    with "1.prems" have "name \<notin> set e2" by simp
    with False show ?thesis by (simp add: loop_unused)
  next
    case True
    with "1.prems" have t2: "name \<in> set e2" by simp
    have a: "buildFunctionName_loop base name i existing =
        buildFunctionName_loop base (base @ ''__'' @ itoa i) (i + 1) existing"
      using True by (subst buildFunctionName_loop.simps) simp
    have b: "buildFunctionName_loop base name i e2 =
        buildFunctionName_loop base (base @ ''__'' @ itoa i) (i + 1) e2"
      using t2 by (subst buildFunctionName_loop.simps) simp
    have "buildFunctionName_loop base (base @ ''__'' @ itoa i) (i + 1) existing =
        buildFunctionName_loop base (base @ ''__'' @ itoa i) (i + 1) e2"
      using True "1.prems" by (intro "1.IH") simp_all
    with a b show ?thesis by simp
  qed
qed

lemma find_map_upt:
  "a \<le> k \<Longrightarrow> k < b \<Longrightarrow> P (f k) \<Longrightarrow> \<forall>j. a \<le> j \<and> j < k \<longrightarrow> \<not> P (f j) \<Longrightarrow>
   find P (map f [a..<b]) = Some (f k)"
proof (induction "k - a" arbitrary: a)
  case 0
  then have "a = k" by simp
  with "0.prems" show ?case by (simp add: upt_rec [of k b])
next
  case (Suc d)
  then have lt: "a < k" by simp
  with Suc.prems have ab: "a < b" and na: "\<not> P (f a)" by auto
  have "d = k - Suc a" using Suc.hyps(2) by simp
  moreover have "Suc a \<le> k" using lt by simp
  moreover have "\<forall>j. Suc a \<le> j \<and> j < k \<longrightarrow> \<not> P (f j)" using Suc.prems by auto
  ultimately have "find P (map f [Suc a..<b]) = Some (f k)"
    using Suc.prems by (intro Suc.hyps(1)) simp_all
  with ab na show ?case by (simp add: upt_rec [of a b])
qed

lemma suffix_bound:
  assumes base: "base \<in> set used"
    and below: "\<forall>j. 2 \<le> j \<and> j < k \<longrightarrow> base @ ''__'' @ itoa j \<in> set used"
    and k: "2 \<le> k"
  shows "k < length used + 2"
proof -
  let ?f = "\<lambda>j. base @ ''__'' @ itoa j"
  have inj: "inj_on ?f {2..<k}" by (rule inj_onI) (simp add: itoa_inj)
  have nb: "base \<notin> ?f ` {2..<k}" by auto
  have sub: "insert base (?f ` {2..<k}) \<subseteq> set used" using base below by auto
  have "card (insert base (?f ` {2..<k})) = Suc (card (?f ` {2..<k}))"
    using nb by (simp add: card_insert_if)
  also have "\<dots> = Suc (k - 2)" using inj by (simp add: card_image)
  finally have "Suc (k - 2) \<le> card (set used)"
    using sub by (metis card_mono List.finite_set)
  also have "\<dots> \<le> length used" by (rule card_length)
  finally show ?thesis using k by simp
qed

lemma spec_eq_loop:
  "specFunctionName lib inst tool used =
   buildFunctionName_loop (slugify lib inst @ ''__'' @ slugify lib tool)
     (slugify lib inst @ ''__'' @ slugify lib tool) 2 used"
proof -
  define base where "base = slugify lib inst @ ''__'' @ slugify lib tool"
  let ?f = "\<lambda>j. base @ ''__'' @ itoa j"
  let ?P = "\<lambda>c. c \<notin> set used"
  have spec: "specFunctionName lib inst tool used =
      (case find ?P (base # map ?f [2..<length used + 2]) of Some c \<Rightarrow> c | None \<Rightarrow> base)"
    by (simp only: specFunctionName_def candidates_def base_def Let_def)
  have "(case find ?P (base # map ?f [2..<length used + 2]) of Some c \<Rightarrow> c | None \<Rightarrow> base) =
      buildFunctionName_loop base base 2 used"
  proof (cases "base \<in> set used")
    case False
    then have "\<And>xs. find ?P (base # xs) = Some base" by simp
    moreover have "buildFunctionName_loop base base 2 used = base"
      using False by (rule loop_unused)
    ultimately show ?thesis by (simp only: option.case)
  next
    case True
    from loop_used [OF True, of 2 base] obtain k where k: "2 \<le> k"
      and r: "buildFunctionName_loop base base 2 used = ?f k"
      and below: "\<forall>j. 2 \<le> j \<and> j < k \<longrightarrow> ?f j \<in> set used"
      by blast
    have free: "?P (?f k)" using loop_fresh [of base base 2 used] r by simp
    have bound: "k < length used + 2" using True below k by (rule suffix_bound)
    have fm: "find ?P (map ?f [2..<length used + 2]) = Some (?f k)"
      using k bound free below by (intro find_map_upt) auto
    have skip: "\<And>xs. find ?P (base # xs) = find ?P xs" using True by simp
    show ?thesis by (simp only: skip fm r option.case)
  qed
  with spec show ?thesis by (simp only: base_def)
qed

lemma spec_eq_build:
  "set used = fst ` set existing \<Longrightarrow>
   specFunctionName lib inst tool used = buildFunctionName lib inst tool existing"
proof -
  assume "set used = fst ` set existing"
  then have "set used = set (map fst existing)" by simp
  then show ?thesis
    unfolding spec_eq_loop buildFunctionName_def Let_def by (rule loop_cong)
qed

lemma specFunctionName_cong:
  "set u1 = set u2 \<Longrightarrow> specFunctionName lib inst tool u1 = specFunctionName lib inst tool u2"
  unfolding spec_eq_loop by (rule loop_cong)

lemma specRoster_cong:
  "set u1 = set u2 \<Longrightarrow> specRoster lib xs u1 = specRoster lib xs u2"
proof (induction xs arbitrary: u1 u2)
  case Nil
  then show ?case by simp
next
  case (Cons x xs)
  obtain inst tool where x: "x = (inst, tool)" by (cases x)
  have n: "specFunctionName lib inst tool u1 = specFunctionName lib inst tool u2"
    using Cons.prems by (rule specFunctionName_cong)
  have "set (specFunctionName lib inst tool u2 # u1) = set (specFunctionName lib inst tool u2 # u2)"
    using Cons.prems by simp
  then have "specRoster lib xs (specFunctionName lib inst tool u2 # u1) =
      specRoster lib xs (specFunctionName lib inst tool u2 # u2)" by (rule Cons.IH)
  then show ?case by (simp add: x n Let_def)
qed

lemma specRoster_append:
  "specRoster lib (xs @ ys) used =
   specRoster lib xs used @ specRoster lib ys (rev (specRoster lib xs used) @ used)"
proof (induction xs arbitrary: used)
  case Nil
  then show ?case by simp
next
  case (Cons x xs)
  obtain inst tool where x: "x = (inst, tool)" by (cases x)
  show ?case by (simp add: x Let_def Cons.IH)
qed

lemma addTool_names:
  assumes "set used = fst ` set (colMeta st)"
  shows "map tpName (colToolParams (addTool lib srv st tool)) =
      map tpName (colToolParams st) @ [specFunctionName lib (Instance srv) (toolName tool) used]"
    and "fst ` set (colMeta (addTool lib srv st tool)) =
      insert (specFunctionName lib (Instance srv) (toolName tool) used) (set used)"
proof -
  have n: "specFunctionName lib (Instance srv) (toolName tool) used =
      buildFunctionName lib (Instance srv) (toolName tool) (colMeta st)"
    using assms by (rule spec_eq_build)
  show "map tpName (colToolParams (addTool lib srv st tool)) =
      map tpName (colToolParams st) @ [specFunctionName lib (Instance srv) (toolName tool) used]"
    by (simp add: addTool_def Let_def n)
  show "fst ` set (colMeta (addTool lib srv st tool)) =
      insert (specFunctionName lib (Instance srv) (toolName tool) used) (set used)"
    using assms by (simp add: addTool_def Let_def n dom_update)
qed

lemma addTools_names:
  "set used = fst ` set (colMeta st) \<Longrightarrow>
   map tpName (colToolParams (foldl (addTool lib srv) st ts)) =
     map tpName (colToolParams st) @
     specRoster lib (map (\<lambda>t. (Instance srv, toolName t)) ts) used \<and>
   fst ` set (colMeta (foldl (addTool lib srv) st ts)) =
     set used \<union> set (specRoster lib (map (\<lambda>t. (Instance srv, toolName t)) ts) used)"
proof (induction ts arbitrary: st used)
  case Nil
  then show ?case by simp
next
  case (Cons t ts)
  let ?n = "specFunctionName lib (Instance srv) (toolName t) used"
  have k: "set (?n # used) = fst ` set (colMeta (addTool lib srv st t))"
    using addTool_names(2) [OF Cons.prems] by simp
  from Cons.IH [OF k] addTool_names(1) [OF Cons.prems, of lib srv t]
  show ?case by (auto simp: Let_def)
qed

lemma visitServer_names:
  assumes "set used = fst ` set (colMeta st)"
  shows "map tpName (colToolParams (visitServer lib m env st srv)) =
      map tpName (colToolParams st) @ specRoster lib (offeredBy lib m env srv) used \<and>
    fst ` set (colMeta (visitServer lib m env st srv)) =
      set used \<union> set (specRoster lib (offeredBy lib m env srv) used)"
proof (cases "(allowedKinds m = [] \<or> ToLower lib (TrimSpace lib (Kind srv)) \<in> set (allowedKinds m)) \<and>
    isToolHost lib (Some srv)")
  case False
  then have "visitServer lib m env st srv = st" by (auto simp: visitServer_def)
  moreover have "offeredBy lib m env srv = []"
    using False
    by (auto simp: offeredBy_def isToolHost_def Let_def ServerKindTool_def ServerKindAgentWrapper_def)
  ultimately show ?thesis using assms by simp
next
  case True
  show ?thesis
  proof (cases "listTools env srv")
    case (Inl err)
    then have "visitServer lib m env st srv = st\<lparr>colLastErr := Some err\<rparr>"
      using True by (auto simp: visitServer_def)
    moreover have "offeredBy lib m env srv = []"
      using Inl by (simp add: offeredBy_def)
    ultimately show ?thesis using assms by simp
  next
    case (Inr ts)
    then have v: "visitServer lib m env st srv = foldl (addTool lib srv) st ts"
      using True by (auto simp: visitServer_def)
    have o: "offeredBy lib m env srv = map (\<lambda>t. (Instance srv, toolName t)) ts"
      using True Inr
      by (auto simp: offeredBy_def isToolHost_def Let_def ServerKindTool_def ServerKindAgentWrapper_def)
    show ?thesis unfolding v o using assms by (rule addTools_names)
  qed
qed

lemma visitServers_names:
  "set used = fst ` set (colMeta st) \<Longrightarrow>
   map tpName (colToolParams (foldl (visitServer lib m env) st srvs)) =
     map tpName (colToolParams st) @
     specRoster lib (concat (map (offeredBy lib m env) srvs)) used"
proof (induction srvs arbitrary: st used)
  case Nil
  then show ?case by simp
next
  case (Cons srv srvs)
  let ?new = "specRoster lib (offeredBy lib m env srv) used"
  from visitServer_names [OF Cons.prems, of lib m env srv]
  have n: "map tpName (colToolParams (visitServer lib m env st srv)) =
      map tpName (colToolParams st) @ ?new"
    and k: "fst ` set (colMeta (visitServer lib m env st srv)) = set used \<union> set ?new"
    by simp_all
  have "set (rev ?new @ used) = fst ` set (colMeta (visitServer lib m env st srv))"
    using k by auto
  from Cons.IH [OF this] n show ?case by (simp add: specRoster_append)
qed

lemma collectTools_refines:
  assumes "toolClientSet m"
  shows "map tpName (fst (collectTools lib m env)) =
     sort (specRoster lib (offeredTools lib m env) [])"
proof (cases "snapshot env = []")
  case True
  then show ?thesis by (simp add: collectTools_def offeredTools_def)
next
  case False
  let ?st = "foldl (visitServer lib m env)
      \<lparr>colToolParams = [], colMeta = [], colDescriptors = [], colLastErr = None\<rparr> (snapshot env)"
  have "map tpName (colToolParams ?st) = specRoster lib (offeredTools lib m env) []"
    unfolding offeredTools_def
    using visitServers_names [of "[]" "\<lparr>colToolParams = [], colMeta = [], colDescriptors = [],
      colLastErr = None\<rparr>" lib m env "snapshot env"] by simp
  then have s: "map tpName (sort_key tpName (colToolParams ?st)) =
      sort (specRoster lib (offeredTools lib m env) [])"
    by (simp add: map_sort_key)
  have "fst (collectTools lib m env) = sort_key tpName (colToolParams ?st)"
    using False assms by (auto simp: collectTools_def Let_def)
  with s show ?thesis by simp
qed

section \<open>Verified properties\<close>

text \<open>
  C6. \<open>slugify\<close> is idempotent: applying it to its own result changes nothing. The slug of a
  string is its trimmed, lower-cased form with each of space, \<open>-\<close>, \<open>.\<close>, \<open>/\<close>, \<open>:\<close> replaced by
  \<open>_\<close>, and \<open>tool\<close> when that form is empty. The library functions are any that have the
  properties \<open>stringsLaws\<close>.
\<close>

theorem slugify_idempotent:
  assumes "stringsLaws lib"
  shows "slugify lib (slugify lib x) = slugify lib x \<and>
     (ToLower lib (TrimSpace lib x) = [] \<longrightarrow> slugify lib x = ''tool'') \<and>
     (ToLower lib (TrimSpace lib x) \<noteq> [] \<longrightarrow>
        slugify lib x = map replaceChar (ToLower lib (TrimSpace lib x))) \<and>
     (\<forall>c. replaceChar c = (if c \<in> set '' -./:'' then CHR ''_'' else c))"
proof -
  let ?s = "ToLower lib (TrimSpace lib x)"
  let ?r = "map replaceChar ?s"
  have ascii: "\<And>s. isASCII s \<Longrightarrow> TrimSpace lib s = asciiTrimSpace s \<and> ToLower lib s = asciiToLower s"
    and low2: "\<And>s. ToLower lib (ToLower lib s) = ToLower lib s"
    and trimlow: "\<And>s. TrimSpace lib (ToLower lib (TrimSpace lib s)) = ToLower lib (TrimSpace lib s)"
    and trimrep: "\<And>s. TrimSpace lib s = s \<Longrightarrow> TrimSpace lib (map replaceChar s) = map replaceChar s"
    and lowrep: "\<And>s. ToLower lib (map replaceChar s) = map replaceChar (ToLower lib s)"
    using assms unfolding stringsLaws_def by blast+
  have rc: "\<forall>c. replaceChar c = (if c \<in> set '' -./:'' then CHR ''_'' else c)"
    by (simp add: replaceChar_def)
  have idem: "slugify lib (slugify lib x) = slugify lib x"
  proof (cases "?s = []")
    case True
    then have sx: "slugify lib x = ''tool''" by (simp add: slugify_def)
    from ascii [OF isASCII_tool] have "ToLower lib (TrimSpace lib ''tool'') = ''tool''"
      by (simp add: tool_fixed)
    then have "slugify lib ''tool'' = ''tool''" by (simp add: slugify_def replaceChar_def)
    with sx show ?thesis by simp
  next
    case False
    then have sx: "slugify lib x = ?r" by (simp add: slugify_def)
    have "TrimSpace lib ?s = ?s" by (rule trimlow)
    then have t: "TrimSpace lib ?r = ?r" by (rule trimrep)
    have "ToLower lib ?r = map replaceChar (ToLower lib ?s)" by (rule lowrep)
    also have "\<dots> = ?r" by (simp only: low2)
    finally have l: "ToLower lib (TrimSpace lib ?r) = ?r" by (simp only: t)
    have "?r \<noteq> []" using False by simp
    with l have "slugify lib ?r = map replaceChar ?r" by (simp add: slugify_def)
    also have "\<dots> = ?r" by (simp add: replaceChar_idem)
    finally show ?thesis by (simp only: sx)
  qed
  moreover have "?s = [] \<longrightarrow> slugify lib x = ''tool''" by (simp add: slugify_def)
  moreover have "?s \<noteq> [] \<longrightarrow> slugify lib x = map replaceChar ?s"
    by (simp add: slugify_def)
  ultimately show ?thesis using rc by blast
qed

theorem slugify_idempotent_witness:
  "stringsLaws asciiStrings \<and>
   slugify asciiStrings '' My-Tool.v1 '' = ''my_tool_v1'' \<and>
   slugify asciiStrings ''my_tool_v1'' = ''my_tool_v1''"
proof -
  from slugify_idempotent [OF asciiStrings_laws, of "'' My-Tool.v1 ''"]
  have "slugify asciiStrings (slugify asciiStrings '' My-Tool.v1 '') =
      slugify asciiStrings '' My-Tool.v1 ''" by blast
  then have "slugify asciiStrings ''my_tool_v1'' = ''my_tool_v1''"
    by (simp only: slug_example)
  with asciiStrings_laws slug_example show ?thesis by blast
qed

text \<open>
  C3, as stated, fails: a role outside \<open>tool\<close>, \<open>agent-wrapper\<close>, \<open>orchestrator\<close> is not
  classified as \<open>unknown\<close>. The peer that advertises \<open>role= Gateway \<close> gets the kind
  \<open>gateway\<close>.
\<close>

theorem classifyKind_unknown_counterexample:
  "Kind (observeInfo asciiStrings 0 gatewayEntry) = ''gateway'' \<and>
   Kind (observeInfo asciiStrings 0 gatewayEntry) \<noteq> ServerKindUnknown"
  by (simp add: observeInfo_def classifyKind_def Let_def gatewayEntry_role gateway_lower
      ServerKindTool_def ServerKindAgentWrapper_def ServerKindOrchestrator_def ServerKindUnknown_def)

text \<open>
  C3, amended. For every TXT record set observed by the registry, the peer's kind is the value
  of TXT key \<open>role\<close>, trimmed and lower-cased: an empty or absent role gives \<open>tool\<close>, and every
  other role (the three known ones and any other string alike) is kept as the kind itself.
\<close>

theorem observe_kind:
  "Kind (observeInfo lib now entry) =
     (let role = ToLower lib (TrimSpace lib (textGet (Some (buildTextMap (entryText entry))) ''role''))
      in if role = [] then ''tool'' else role)"
  by (simp add: observeInfo_def classifyKind_def Let_def ServerKindTool_def
      ServerKindAgentWrapper_def ServerKindOrchestrator_def)

theorem observe_kind_witness:
  "Kind (observeInfo asciiStrings 7 gatewayEntry) = ''gateway''"
  using observe_kind [of asciiStrings 7 gatewayEntry] by (simp add: gatewayEntry_role gateway_lower)

text \<open>
  C7, as stated, fails: a key that contains \<open>=\<close> is split inside the key, and surrounding
  white space of key or value is trimmed by the announcer, so the pair does not come back
  unchanged.
\<close>

theorem txt_roundtrip_counterexample:
  "txtRoundTrip asciiStrings ''a=b'' ''c'' = Some (''a'', ''b=c'') \<and>
   txtRoundTrip asciiStrings ''k'' '' v'' = Some (''k'', ''v'')"
  by code_simp

text \<open>
  C7, amended. For every pair \<open>{k: v}\<close> whose trimmed key is non-empty and contains no \<open>=\<close>,
  encoding it as the announcer does and parsing the record as the registry does yields the
  pair of the trimmed key and the trimmed value (so the pair itself when trimming changes
  neither); the registry's text map built from that one record holds exactly this pair.
\<close>

theorem txt_roundtrip:
  assumes "TrimSpace lib k \<noteq> []" and "CHR ''='' \<notin> set (TrimSpace lib k)"
  shows "txtRoundTrip lib k v = Some (TrimSpace lib k, TrimSpace lib v)
     \<and> buildTextMap (announceText lib [(k, v)]) = [TrimSpace lib k \<mapsto> TrimSpace lib v]"
  using assms
  by (simp add: txtRoundTrip_def encodeTxt_def Let_def parseTxtRecord_append buildTextMap_def
      announceText_def List.map_filter_simps storeTxt_def)

theorem txt_roundtrip_witness:
  "txtRoundTrip asciiStrings '' role '' ''tool '' = Some (''role'', ''tool'')
     \<and> buildTextMap (announceText asciiStrings [('' role '', ''tool '')]) = [''role'' \<mapsto> ''tool'']"
proof -
  have a: "TrimSpace asciiStrings '' role '' = ''role''" by code_simp
  have b: "TrimSpace asciiStrings ''tool '' = ''tool''" by code_simp
  have "TrimSpace asciiStrings '' role '' \<noteq> []" "CHR ''='' \<notin> set (TrimSpace asciiStrings '' role '')"
    unfolding a by simp_all
  from txt_roundtrip [OF this, of "''tool ''"] show ?thesis unfolding a b .
qed

text \<open>
  C8, as stated, fails twice. A scheme attribute that is not empty but blank (a single
  space) is not used as the scheme: the request URL gets \<open>http\<close>. And a URL attribute that is
  not empty and parses does not always keep the endpoint path: \<open>peer.example:8443\<close> parses as
  a scheme with an opaque part, which is printed without any path.
\<close>

theorem buildURL_scheme_counterexample:
  "textGet (Text blankSchemePeer) ''scheme'' = '' '' \<and>
   buildURL asciiStrings exampleNet (Some blankSchemePeer) ''/tools/list'' =
     Inr ''http://10.0.0.5:9000/tools/list'' \<and>
   textGet (Text hostPortPeer) ''url'' = ''peer.example:8443'' \<and>
   buildURL asciiStrings exampleNet (Some hostPortPeer) ''/tools/list'' =
     Inr ''peer.example:8443''"
proof -
  have 1: "buildURL asciiStrings exampleNet (Some blankSchemePeer) ''/tools/list'' =
     Inr ''http://10.0.0.5:9000/tools/list''"
    by (simp add: buildURL_def blankSchemePeer_def textGet_def peerAddress_def peerScheme_def
        Let_def trim_blank trim_addr endpointPath_list trim_empty)
  have 2: "buildURL asciiStrings exampleNet (Some hostPortPeer) ''/tools/list'' =
     Inr ''peer.example:8443''"
    by (simp add: buildURL_def hostPortPeer_def textGet_def Let_def trim_hostport
        exampleNet_def exampleParse_def URLString_def)
  show ?thesis using 1 2 by (simp add: blankSchemePeer_def hostPortPeer_def textGet_def)
qed

text \<open>
  C8, amended. For every peer record: when the attribute \<open>url\<close> is blank and the peer has an
  address, the request URL is \<open>scheme://address/path\<close> where the scheme is the trimmed value
  of the attribute \<open>scheme\<close> when that is non-empty and \<open>http\<close> otherwise; when the attribute
  \<open>url\<close> is not blank and parses to a URL without an opaque part, the request URL is that
  URL's scheme, user, host, query and fragment with the endpoint path in the place of its
  path (the endpoint path is one that percent-encoding leaves as it is, and the URL's raw path
  is not an encoding of it).
\<close>

theorem buildURL_spec:
  "(TrimSpace lib (textGet (Text srv) ''url'') = [] \<and> TrimSpace lib (peerAddress srv) \<noteq> [] \<longrightarrow>
      buildURL lib net (Some srv) path =
        Inr ((if TrimSpace lib (textGet (Text srv) ''scheme'') = [] then ''http''
              else TrimSpace lib (textGet (Text srv) ''scheme''))
             @ ''://'' @ peerAddress srv @ endpointPath path))
   \<and> (TrimSpace lib (textGet (Text srv) ''url'') \<noteq> [] \<and>
        Parse net (textGet (Text srv) ''url'') = Inr base \<and>
        urlOpaque base = [] \<and>
        (urlRawPath base = [] \<or> unescape net (urlRawPath base) encodePath \<noteq> Some (endpointPath path)) \<and>
        escape net (endpointPath path) encodePath = endpointPath path \<longrightarrow>
      buildURL lib net (Some srv) path =
        Inr ((if urlScheme base \<noteq> [] then urlScheme base @ '':'' else [])
             @ (if (urlScheme base \<noteq> [] \<or> urlHost base \<noteq> [] \<or> urlUser base \<noteq> None) \<and>
                   \<not> (urlOmitHost base \<and> urlHost base = [] \<and> urlUser base = None)
                then ''//'' @ (case urlUser base of None \<Rightarrow> [] | Some ui \<Rightarrow> ui @ ''@'')
                     @ (if urlHost base \<noteq> [] then escape net (urlHost base) encodeHost else [])
                else [])
             @ endpointPath path
             @ (if urlForceQuery base \<or> urlRawQuery base \<noteq> [] then ''?'' @ urlRawQuery base else [])
             @ (if urlFragment base \<noteq> [] then ''#'' @ EscapedFragment net base else [])))"
proof (intro conjI impI)
  assume "TrimSpace lib (textGet (Text srv) ''url'') = [] \<and> TrimSpace lib (peerAddress srv) \<noteq> []"
  then show "buildURL lib net (Some srv) path =
        Inr ((if TrimSpace lib (textGet (Text srv) ''scheme'') = [] then ''http''
              else TrimSpace lib (textGet (Text srv) ''scheme''))
             @ ''://'' @ peerAddress srv @ endpointPath path)"
    by (simp add: buildURL_def peerScheme_def Let_def)
next
  assume a: "TrimSpace lib (textGet (Text srv) ''url'') \<noteq> [] \<and>
        Parse net (textGet (Text srv) ''url'') = Inr base \<and>
        urlOpaque base = [] \<and>
        (urlRawPath base = [] \<or> unescape net (urlRawPath base) encodePath \<noteq> Some (endpointPath path)) \<and>
        escape net (endpointPath path) encodePath = endpointPath path"
  let ?u = "base\<lparr>urlPath := endpointPath path\<rparr>"
  obtain rest where r: "endpointPath path = CHR ''/'' # rest" using endpointPath_slash by blast
  have b: "buildURL lib net (Some srv) path = Inr (URLString net ?u)"
    using a by (simp add: buildURL_def Let_def)
  have f: "EscapedFragment net ?u = EscapedFragment net base" by (simp add: EscapedFragment_def)
  have "URLString net ?u =
      (if urlScheme ?u \<noteq> [] then urlScheme ?u @ '':'' else [])
      @ (if (urlScheme ?u \<noteq> [] \<or> urlHost ?u \<noteq> [] \<or> urlUser ?u \<noteq> None) \<and>
            \<not> (urlOmitHost ?u \<and> urlHost ?u = [] \<and> urlUser ?u = None)
         then ''//'' @ (case urlUser ?u of None \<Rightarrow> [] | Some ui \<Rightarrow> ui @ ''@'')
              @ (if urlHost ?u \<noteq> [] then escape net (urlHost ?u) encodeHost else [])
         else [])
      @ urlPath ?u
      @ (if urlForceQuery ?u \<or> urlRawQuery ?u \<noteq> [] then ''?'' @ urlRawQuery ?u else [])
      @ (if urlFragment ?u \<noteq> [] then ''#'' @ EscapedFragment net ?u else [])"
    using a r by (intro URLString_hierarchical [where rest = rest]) auto
  then show "buildURL lib net (Some srv) path =
        Inr ((if urlScheme base \<noteq> [] then urlScheme base @ '':'' else [])
             @ (if (urlScheme base \<noteq> [] \<or> urlHost base \<noteq> [] \<or> urlUser base \<noteq> None) \<and>
                   \<not> (urlOmitHost base \<and> urlHost base = [] \<and> urlUser base = None)
                then ''//'' @ (case urlUser base of None \<Rightarrow> [] | Some ui \<Rightarrow> ui @ ''@'')
                     @ (if urlHost base \<noteq> [] then escape net (urlHost base) encodeHost else [])
                else [])
             @ endpointPath path
             @ (if urlForceQuery base \<or> urlRawQuery base \<noteq> [] then ''?'' @ urlRawQuery base else [])
             @ (if urlFragment base \<noteq> [] then ''#'' @ EscapedFragment net base else []))"
    unfolding b f by simp
qed

theorem buildURL_spec_witness:
  "buildURL asciiStrings exampleNet (Some blankSchemePeer) ''tools/call'' =
     Inr ''http://10.0.0.5:9000/tools/call''
   \<and> buildURL asciiStrings exampleNet (Some urlPeer) ''/tools/list'' =
     Inr ''https://peer.example:8443/tools/list?x=1''"
proof -
  have p: "endpointPath ''tools/call'' = ''/tools/call''"
    by (simp add: endpointPath_def HasPrefix_def)
  have u: "textGet (Text blankSchemePeer) ''url'' = []"
    by (simp add: blankSchemePeer_def textGet_def)
  have s: "textGet (Text blankSchemePeer) ''scheme'' = '' ''"
    by (simp add: blankSchemePeer_def textGet_def)
  have ad: "peerAddress blankSchemePeer = ''10.0.0.5:9000''"
    by (simp add: blankSchemePeer_def peerAddress_def)
  have h1: "TrimSpace asciiStrings (textGet (Text blankSchemePeer) ''url'') = [] \<and>
      TrimSpace asciiStrings (peerAddress blankSchemePeer) \<noteq> []"
    by (simp add: u ad trim_addr trim_empty)
  have first: "buildURL asciiStrings exampleNet (Some blankSchemePeer) ''tools/call'' =
     Inr ''http://10.0.0.5:9000/tools/call''"
    using buildURL_spec [where srv = blankSchemePeer and lib = asciiStrings and net = exampleNet
        and path = "''tools/call''"] h1
    by (simp add: s trim_blank ad p)
  have t: "textGet (Text urlPeer) ''url'' = ''https://peer.example:8443/base?x=1''"
    by (simp add: urlPeer_def textGet_def)
  define base where "base = \<lparr>urlScheme = ''https'', urlOpaque = [], urlUser = None,
                urlHost = ''peer.example:8443'', urlPath = ''/base'', urlRawPath = [],
                urlOmitHost = False, urlForceQuery = False, urlRawQuery = ''x=1'',
                urlFragment = [], urlRawFragment = []\<rparr>"
  have pr: "Parse exampleNet (textGet (Text urlPeer) ''url'') = Inr base"
    by (simp add: t exampleNet_def exampleParse_def base_def)
  have h2: "TrimSpace asciiStrings (textGet (Text urlPeer) ''url'') \<noteq> [] \<and>
      Parse exampleNet (textGet (Text urlPeer) ''url'') = Inr base \<and>
      urlOpaque base = [] \<and>
      (urlRawPath base = [] \<or>
       unescape exampleNet (urlRawPath base) encodePath \<noteq> Some (endpointPath ''/tools/list'')) \<and>
      escape exampleNet (endpointPath ''/tools/list'') encodePath = endpointPath ''/tools/list''"
    using pr by (simp add: t trim_url base_def exampleNet_def)
  from buildURL_spec [where srv = urlPeer and lib = asciiStrings and net = exampleNet
        and path = "''/tools/list''" and base = base] h2
  have "buildURL asciiStrings exampleNet (Some urlPeer) ''/tools/list'' =
     Inr ''https://peer.example:8443/tools/list?x=1''"
    by (simp add: base_def endpointPath_list exampleNet_def)
  with first show ?thesis by simp
qed

text \<open>
  C2, as stated, fails: a call of a tool that is not registered is answered with status 404,
  not 400.
\<close>

theorem handleCallTool_unknown_counterexample:
  "trStatus (handleCallTool asciiStrings (newToolServer asciiStrings) exampleExec (Inr headCall)) = 404"
proof -
  have "tcName headCall \<notin> tdName ` set (tools (newToolServer asciiStrings))"
    using newToolServer_names by (simp add: headCall_def flip: set_map)
  then have "lookupTool (newToolServer asciiStrings) (tcName headCall) = Inl (ErrToolNotFound (tcName headCall))"
    unfolding lookupTool_def by (rule lookupToolIn_missing)
  then show ?thesis by (simp add: handleCallTool_def StatusNotFound_def)
qed

text \<open>
  C2, amended. For every \<open>POST /tools/call\<close> request to the HTTP-methods tool server whose
  tool name matches no registered tool, the server responds with status 404; status 400 is
  the answer to a body that does not decode and to a registered tool called with a missing or
  malformed \<open>url\<close> argument.
\<close>

theorem handleCallTool_status:
  "(tcName req \<notin> tdName ` set (tools s) \<longrightarrow>
      handleCallTool lib s exec (Inr req) =
        \<lparr>trStatus = 404, trBody = Inl (ErrToolNotFound (tcName req))\<rparr>)
   \<and> (tcName req \<in> tdName ` set (tools s) \<and> extractString lib (tcArguments req) ''url'' = Inl err \<longrightarrow>
      handleCallTool lib s exec (Inr req) = \<lparr>trStatus = 400, trBody = Inl err\<rparr>)
   \<and> handleCallTool lib s exec (Inl err) = \<lparr>trStatus = 400, trBody = Inl err\<rparr>"
proof (intro conjI impI)
  assume "tcName req \<notin> tdName ` set (tools s)"
  then have "lookupTool s (tcName req) = Inl (ErrToolNotFound (tcName req))"
    unfolding lookupTool_def by (rule lookupToolIn_missing)
  then show "handleCallTool lib s exec (Inr req) =
        \<lparr>trStatus = 404, trBody = Inl (ErrToolNotFound (tcName req))\<rparr>"
    by (simp add: handleCallTool_def StatusNotFound_def)
next
  assume a: "tcName req \<in> tdName ` set (tools s) \<and> extractString lib (tcArguments req) ''url'' = Inl err"
  then obtain d where "lookupTool s (tcName req) = Inr d"
    unfolding lookupTool_def using lookupToolIn_found by blast
  then show "handleCallTool lib s exec (Inr req) = \<lparr>trStatus = 400, trBody = Inl err\<rparr>"
    using a by (simp add: handleCallTool_def StatusBadRequest_def)
next
  show "handleCallTool lib s exec (Inl err) = \<lparr>trStatus = 400, trBody = Inl err\<rparr>"
    by (simp add: handleCallTool_def StatusBadRequest_def)
qed

theorem handleCallTool_status_witness:
  "handleCallTool asciiStrings (newToolServer asciiStrings) exampleExec (Inr headCall) =
     \<lparr>trStatus = 404, trBody = Inl (ErrToolNotFound ''http_head'')\<rparr>
   \<and> handleCallTool asciiStrings (newToolServer asciiStrings) exampleExec (Inr getCallNoURL) =
     \<lparr>trStatus = 400, trBody = Inl (ErrMissingArgument ''url'')\<rparr>"
proof -
  have n: "tcName headCall \<notin> tdName ` set (tools (newToolServer asciiStrings))"
    using newToolServer_names by (simp add: headCall_def flip: set_map)
  have g: "tcName getCallNoURL \<in> tdName ` set (tools (newToolServer asciiStrings))"
    using newToolServer_names by (simp add: getCallNoURL_def flip: set_map)
  have e: "extractString asciiStrings (tcArguments getCallNoURL) ''url'' = Inl (ErrMissingArgument ''url'')"
    by (simp add: getCallNoURL_def extractString_def)
  have 1: "handleCallTool asciiStrings (newToolServer asciiStrings) exampleExec (Inr headCall) =
     \<lparr>trStatus = 404, trBody = Inl (ErrToolNotFound ''http_head'')\<rparr>"
    using handleCallTool_status [where req = headCall and s = "newToolServer asciiStrings" and lib = asciiStrings and exec = exampleExec] n
    by (simp add: headCall_def)
  have 2: "handleCallTool asciiStrings (newToolServer asciiStrings) exampleExec (Inr getCallNoURL) =
     \<lparr>trStatus = 400, trBody = Inl (ErrMissingArgument ''url'')\<rparr>"
    using handleCallTool_status [where req = getCallNoURL and s = "newToolServer asciiStrings" and lib = asciiStrings and exec = exampleExec
        and err = "ErrMissingArgument ''url''"] g e
    by blast
  from 1 2 show ?thesis by simp
qed

text \<open>
  C5, as stated, fails: a request with an empty model and one user message is not accepted;
  \<open>Validate\<close> rejects it with the error \<open>model is required\<close> before the model check is
  reached.
\<close>

theorem HandleChat_empty_model_counterexample:
  "HandleChat asciiStrings 3 exampleMediator emptyEnv emptyModelRequest = ([], Some (Inl ErrModelRequired))"
  by (simp add: HandleChat_def Validate_def emptyModelRequest_def)

text \<open>
  C5, amended. For every request with \<open>request.model\<close> equal to the empty string, whatever the
  rest of it, the mediator and the bound on rounds, \<open>HandleChat\<close> sends nothing upstream and
  returns the validation error \<open>model is required\<close>: the empty model never reaches the model
  check.
\<close>

theorem HandleChat_empty_model:
  "reqModel req = [] \<Longrightarrow> HandleChat lib fuel m env req = ([], Some (Inl ErrModelRequired))"
  by (simp add: HandleChat_def Validate_def)

theorem HandleChat_empty_model_witness:
  "reqModel emptyModelRequest = [] \<and>
   HandleChat asciiStrings 5 exampleMediator emptyEnv emptyModelRequest = ([], Some (Inl ErrModelRequired))"
proof -
  have h: "reqModel emptyModelRequest = []" by (simp add: emptyModelRequest_def)
  from HandleChat_empty_model [OF h, of asciiStrings 5 exampleMediator emptyEnv] h show ?thesis by simp
qed

text \<open>
  C1, as stated, fails: the request with an empty model fails admission and the handler
  answers with status 500.
\<close>

theorem handleChatCompletions_validation_counterexample:
  "handleChatCompletions asciiStrings 3 exampleMediator emptyEnv (Inr emptyModelRequest) =
     Some \<lparr>httpStatus = 500, httpBody = Inl ErrModelRequired\<rparr>"
  by (simp add: handleChatCompletions_def HandleChat_def Validate_def emptyModelRequest_def
      errorStatus_def StatusInternalServerError_def)

text \<open>
  C1, amended. For every chat-completion request whose shape fails admission (missing model,
  no messages, or a message without a role), the handler of \<open>POST /v1/chat/completions\<close>
  responds with status 500 and the validation error as its body.
\<close>

theorem handleChatCompletions_validation:
  assumes "reqModel req = [] \<or> reqMessages req = [] \<or> (\<exists>msg\<in>set (reqMessages req). msgRole msg = [])"
  shows "\<exists>err. Validate req = Some err \<and>
     handleChatCompletions lib fuel m env (Inr req) = Some \<lparr>httpStatus = 500, httpBody = Inl err\<rparr>"
proof -
  from Validate_fails [OF assms] obtain err where v: "Validate req = Some err"
    and k: "err = ErrModelRequired \<or> err = ErrNoMessages \<or> (\<exists>i. err = ErrMissingRole i)"
    by auto
  from k have "errorStatus err = 500"
    by (auto simp: errorStatus_def StatusInternalServerError_def)
  with v show ?thesis
    by (simp add: handleChatCompletions_def HandleChat_invalid)
qed

theorem handleChatCompletions_validation_witness:
  "handleChatCompletions asciiStrings 2 exampleMediator emptyEnv (Inr emptyModelRequest) =
     Some \<lparr>httpStatus = 500, httpBody = Inl ErrModelRequired\<rparr>"
proof -
  have h: "reqModel emptyModelRequest = [] \<or> reqMessages emptyModelRequest = []
      \<or> (\<exists>msg\<in>set (reqMessages emptyModelRequest). msgRole msg = [])"
    by (simp add: emptyModelRequest_def)
  have v: "Validate emptyModelRequest = Some ErrModelRequired"
    by (simp add: Validate_def emptyModelRequest_def)
  from handleChatCompletions_validation [OF h, of asciiStrings 2 exampleMediator emptyEnv] v
  show ?thesis by simp
qed

text \<open>
  C9. When the registry snapshot is empty, \<open>collectTools\<close> gives an empty roster (and an empty
  side index and descriptor list) with no error, and every completion request that
  \<open>HandleChat\<close> sends upstream has no \<open>tools\<close> field.
\<close>

theorem empty_snapshot_no_tools:
  assumes "snapshot env = []"
  shows "collectTools lib m env = ([], [], [], None) \<and>
     (\<forall>p\<in>set (fst (HandleChat lib fuel m env req)). paramsTools p = None)"
proof
  show c: "collectTools lib m env = ([], [], [], None)" using assms by (rule collectTools_empty)
  show "\<forall>p\<in>set (fst (HandleChat lib fuel m env req)). paramsTools p = None"
  proof
    fix p assume p: "p \<in> set (fst (HandleChat lib fuel m env req))"
    from HandleChat_sent [of lib fuel m env req] p c
    obtain meta conversation where
      "p \<in> set (fst (turnLoop lib fuel m env [] meta 0 conversation))" by auto
    from turnLoop_tools [OF this] show "paramsTools p = None" by simp
  qed
qed

theorem empty_snapshot_no_tools_witness:
  "collectTools asciiStrings exampleMediator emptyEnv = ([], [], [], None) \<and>
   map paramsTools (fst (HandleChat asciiStrings (Suc 0) exampleMediator emptyEnv hiRequest)) = [None]"
proof -
  have s: "snapshot emptyEnv = []" by (simp add: emptyEnv_def)
  from empty_snapshot_no_tools [OF s, of asciiStrings exampleMediator "Suc 0" hiRequest]
  show ?thesis by (simp add: hello_turn)
qed

text \<open>
  C10. For every successful turn, the external response has exactly one choice, built from
  the first choice of the completion that answered the last request sent upstream (the other
  choices of that completion are dropped), and its model field is the mediator's external
  model name, whatever model label the completion carries.
\<close>

theorem successful_turn_response:
  assumes "HandleChat lib fuel m env req = (sent, Some (Inr resp))"
  shows "\<exists>completion choice others.
      sent \<noteq> [] \<and>
      upstream env (length sent - 1) (last sent) = Inr (Some completion) \<and>
      compChoices completion = choice # others \<and>
      respChoices resp =
        [\<lparr>chIndex = ccIndex choice, chFinishReason = ccFinishReason choice,
          chMessage = \<lparr>amRole = ''assistant'', amContent = cmContent (ccMessage choice)\<rparr>\<rparr>] \<and>
      respModel resp = modelName m"
proof -
  from assms obtain toolParams meta conversation where
    t: "turnLoop lib fuel m env toolParams meta 0 conversation = (sent, Some (Inr resp))"
    by (cases "collectTools lib m env")
       (auto simp: HandleChat_def Let_def split: option.splits if_splits)
  from turnLoop_success [OF t] obtain completion choice others where
    ne: "sent \<noteq> []" and
    u: "upstream env (0 + length sent - 1) (last sent) = Inr (Some completion)" and
    c: "compChoices completion = choice # others" and
    b: "buildOpenAIResponse (modelName m) completion = Some resp"
    by blast
  from b c have "respChoices resp =
        [\<lparr>chIndex = ccIndex choice, chFinishReason = ccFinishReason choice,
          chMessage = \<lparr>amRole = ''assistant'', amContent = cmContent (ccMessage choice)\<rparr>\<rparr>]"
    and "respModel resp = modelName m"
    by (auto simp: buildOpenAIResponse_def)
  with ne u c show ?thesis by auto
qed

theorem successful_turn_response_witness:
  "HandleChat asciiStrings (Suc 0) exampleMediator emptyEnv hiRequest =
     ([\<lparr>paramsModel = ''llama3'', paramsMessages = [UserMessage ''hi''], paramsTools = None\<rparr>],
      Some (Inr helloResponse)) \<and>
   length (compChoices helloCompletion) = 2 \<and> compModel helloCompletion = ''llama3'' \<and>
   length (respChoices helloResponse) = 1 \<and> respModel helloResponse = ''go-agent-1''"
proof -
  from successful_turn_response [OF hello_turn]
  obtain choice :: CompletionChoice where "respChoices helloResponse =
        [\<lparr>chIndex = ccIndex choice, chFinishReason = ccFinishReason choice,
          chMessage = \<lparr>amRole = ''assistant'', amContent = cmContent (ccMessage choice)\<rparr>\<rparr>]"
    and "respModel helloResponse = modelName exampleMediator" by blast
  then have "length (respChoices helloResponse) = 1" "respModel helloResponse = ''go-agent-1''"
    by (simp_all add: exampleMediator_fields)
  then show ?thesis by (simp add: hello_turn helloCompletion_def)
qed

text \<open>
  C4. For every snapshot and every set of per-peer tool lists, the roster built by
  \<open>collectTools\<close> has pairwise different function names in lexicographic order. With a tool
  client, the names are exactly those the specification's rule gives to the offered tools,
  taken peer by peer and tool by tool, put in order: each tool gets the slug of the instance,
  two underscores and the slug of the tool name, and when that name is already in the roster,
  the first free one with the suffix \<open>__2\<close>, \<open>__3\<close>, \<open>\<dots>\<close>. Every name is recorded in the side
  index with the peer and tool it was made from. The last part is the same rule for a single
  call of \<open>buildFunctionName\<close>: the name it gives is not in use; it is the plain name when that
  is free, and otherwise carries the least suffix from 2 on that is free.
\<close>

theorem roster_names:
  assumes "collectTools lib m env = (toolParams, meta, descriptors, err)"
  shows "sorted (map tpName toolParams) \<and> distinct (map tpName toolParams) \<and>
     (toolClientSet m \<longrightarrow>
        map tpName toolParams = sort (specRoster lib (offeredTools lib m env) [])) \<and>
     (\<forall>tp\<in>set toolParams. \<exists>entry. map_of meta (tpName tp) = Some entry \<and>
        (let base = slugify lib (Instance (metaServer entry)) @ ''__'' @ slugify lib (metaToolName entry)
         in tpName tp = base \<or> (\<exists>k\<ge>2. tpName tp = base @ ''__'' @ itoa k))) \<and>
     (let base = slugify lib inst @ ''__'' @ slugify lib tool;
          name = buildFunctionName lib inst tool existing
      in name \<notin> fst ` set existing \<and>
         (base \<notin> fst ` set existing \<longrightarrow> name = base) \<and>
         (base \<in> fst ` set existing \<longrightarrow>
            (\<exists>k\<ge>2. name = base @ ''__'' @ itoa k \<and>
               (\<forall>j. 2 \<le> j \<and> j < k \<longrightarrow> base @ ''__'' @ itoa j \<in> fst ` set existing))))"
proof -
  let ?st = "foldl (visitServer lib m env)
      \<lparr>colToolParams = [], colMeta = [], colDescriptors = [], colLastErr = None\<rparr> (snapshot env)"
  let ?P = "\<lambda>tps mt. sorted (map tpName tps) \<and> distinct (map tpName tps) \<and>
     (\<forall>tp\<in>set tps. \<exists>entry. map_of mt (tpName tp) = Some entry \<and> wellNamed lib (tpName tp) entry)"
  have inv: "rosterInv lib ?st" using rosterInv_init by (rule visitServers_inv)
  have nil: "\<And>mt. ?P [] mt" by simp
  have srt: "?P (sort_key tpName (colToolParams ?st)) (colMeta ?st)"
  proof (intro conjI)
    show "sorted (map tpName (sort_key tpName (colToolParams ?st)))" by (rule sorted_sort_key)
    show "distinct (map tpName (sort_key tpName (colToolParams ?st)))"
      using inv by (simp add: map_sort_key rosterInv_def)
    show "\<forall>tp\<in>set (sort_key tpName (colToolParams ?st)).
        \<exists>entry. map_of (colMeta ?st) (tpName tp) = Some entry \<and> wellNamed lib (tpName tp) entry"
      using inv unfolding rosterInv_def by (metis set_sort)
  qed
  have "?P toolParams meta"
  proof (cases "snapshot env = [] \<or> \<not> toolClientSet m")
    case True
    with assms have "toolParams = []" by (auto simp: collectTools_def split: if_splits)
    with nil show ?thesis by simp
  next
    case False
    show ?thesis
    proof (cases "sort_key tpName (colToolParams ?st) = [] \<and> colLastErr ?st \<noteq> None")
      case True
      with False assms have "toolParams = []"
        by (simp add: collectTools_def Let_def)
      with nil show ?thesis by simp
    next
      case f2: False
      with False assms have "toolParams = sort_key tpName (colToolParams ?st)"
        and "meta = colMeta ?st"
        by (auto simp add: collectTools_def Let_def)
      with srt show ?thesis by simp
    qed
  qed
  then have first: "sorted (map tpName toolParams) \<and> distinct (map tpName toolParams) \<and>
     (\<forall>tp\<in>set toolParams. \<exists>entry. map_of meta (tpName tp) = Some entry \<and>
        (let base = slugify lib (Instance (metaServer entry)) @ ''__'' @ slugify lib (metaToolName entry)
         in tpName tp = base \<or> (\<exists>k\<ge>2. tpName tp = base @ ''__'' @ itoa k)))"
    by (simp add: wellNamed_def)
  have second: "toolClientSet m \<longrightarrow>
      map tpName toolParams = sort (specRoster lib (offeredTools lib m env) [])"
    using collectTools_refines [of m lib env] assms by simp
  from first second buildFunctionName_rule [of lib inst tool existing] show ?thesis by blast
qed

theorem roster_names_witness:
  "map tpName (fst (collectTools asciiStrings exampleMediator rosterEnv)) =
     [''node_1__run'', ''node_1__run__2'', ''node_1__run__3''] \<and>
   sort (specRoster asciiStrings (offeredTools asciiStrings exampleMediator rosterEnv) []) =
     [''node_1__run'', ''node_1__run__2'', ''node_1__run__3''] \<and>
   sorted (map tpName (fst (collectTools asciiStrings exampleMediator rosterEnv))) \<and>
   distinct (map tpName (fst (collectTools asciiStrings exampleMediator rosterEnv))) \<and>
   buildFunctionName asciiStrings ''node-1'' ''run'' [] =
     slugify asciiStrings ''node-1'' @ ''__'' @ slugify asciiStrings ''run''"
proof -
  obtain toolParams meta descriptors err where
    c: "collectTools asciiStrings exampleMediator rosterEnv = (toolParams, meta, descriptors, err)"
    by (cases "collectTools asciiStrings exampleMediator rosterEnv") auto
  have t: "toolClientSet exampleMediator" by (simp add: exampleMediator_def New_def)
  note r = roster_names [OF c, of "''node-1''" "''run''" "[]", unfolded Let_def]
  have a1: "sorted (map tpName toolParams)" using r by blast
  have a2: "distinct (map tpName toolParams)" using r by blast
  have a3: "map tpName toolParams =
      sort (specRoster asciiStrings (offeredTools asciiStrings exampleMediator rosterEnv) [])"
    using r t by blast
  have "slugify asciiStrings ''node-1'' @ ''__'' @ slugify asciiStrings ''run'' \<notin> fst ` set []"
    by simp
  with r have a4: "buildFunctionName asciiStrings ''node-1'' ''run'' [] =
      slugify asciiStrings ''node-1'' @ ''__'' @ slugify asciiStrings ''run''" by blast
  have n: "map tpName toolParams = [''node_1__run'', ''node_1__run__2'', ''node_1__run__3'']"
    using c roster_example by simp
  have "sort (specRoster asciiStrings (offeredTools asciiStrings exampleMediator rosterEnv) []) =
      [''node_1__run'', ''node_1__run__2'', ''node_1__run__3'']"
    using a3 n by simp
  with a1 a2 a4 n c show ?thesis by simp
qed

end
